theory Spec2Isabelle
  imports Main "HOL-Library.AList"
begin

section \<open>The StreamAlert command line runner (stream\_alert\_cli/runner.py)\<close>

text \<open>
  The runner drives the external tool \<^verbatim>\<open>terraform\<close> and the Lambda packaging code from
  the process-wide configuration object \<^verbatim>\<open>CONFIG\<close>. Every function of the module that
  touches the outside is modelled by explicit state passing over a \<open>world\<close>: the
  configuration, the lines still waiting on standard input, and the trace of the
  effects performed so far. Python exceptions are values of \<open>error\<close>. A call that is
  still waiting for the operator when the input lines run out has result \<open>None\<close>.
  Calls to \<^verbatim>\<open>logging.info\<close> have no effect that the module reads back and are left out.
\<close>

subsection \<open>Data\<close>

datatype error =
    KeyError string
  | ValueError string
  | EOFError
  | InvalidClusterName string
  | PackageError string

text \<open>A value read from \<^verbatim>\<open>variables.json\<close> where the code accepts a string or a number.\<close>

datatype pyval = PStr string | PInt int

text \<open>
  Modelled from the spec: the class \<^verbatim>\<open>CLIConfig\<close> behind \<^verbatim>\<open>CONFIG\<close> (ConfigStore) "loads/saves
  the cluster configuration (cluster list, per-cluster settings, version pointers, account
  prefix, KMS alias, state-file key)"; the runner "only calls its get/set surface". Its
  entries are those of \<^verbatim>\<open>variables.json\<close>, read as from a Python dictionary.

  The keys that the runner reads under a fixed name (\<^verbatim>\<open>CONFIG['clusters']\<close>,
  \<^verbatim>\<open>CONFIG['account']['region']\<close>, ...) are fields, and \<open>filename\<close> is the attribute
  \<^verbatim>\<open>CONFIG.filename\<close>; dictionaries are association lists in iteration order.
  \<open>s3_event_buckets\<close> is read with \<^verbatim>\<open>CONFIG.get\<close>, so it may be absent. \<open>tables\<close> holds the
  remaining top-level entries that map a cluster name to a value, each under its own key,
  for instance \<^verbatim>\<open>rule_processor_versions\<close>; indexing with a key that is not there raises
  \<^verbatim>\<open>KeyError\<close>.
\<close>

record config =
  filename :: string
  clusters :: "(string \<times> string) list"
  account_region :: string
  account_prefix :: string
  account_kms_key_alias :: string
  terraform_tfstate_s3_key :: string
  s3_event_buckets :: "(string \<times> string list) list option"
  tables :: "(string \<times> (string \<times> pyval) list) list"

datatype processor = RuleProcessorPackage | AlertProcessorPackage

text \<open>
  The effects a run performs, in order: a child process started by \<^verbatim>\<open>run_command\<close> with
  its arguments and whether it exited with status zero, the prompt printed by one call
  of \<^verbatim>\<open>raw_input\<close>, a package built and uploaded, a file written (path and contents).
\<close>

datatype event =
    Command "string list" bool
  | Prompt
  | CreateAndUpload processor
  | FileWrite string string

text \<open>
  The collaborators whose code is outside this module.

  Modelled from the spec: \<^verbatim>\<open>CLIHelpers.run_command\<close> (CommandRunner) "executes the
  external process synchronously; on nonzero exit ... returns false; on zero exit returns
  true". \<open>exit_ok\<close> gives that outcome for a command, given everything that happened
  before it.

  Modelled from the spec: the Jinja template (\<open>render\<close>: cluster name and bucket list to
  file contents) and the package classes (\<open>create_and_upload\<close>: "build artifact, upload,
  record artifact hash/key into ClusterConfig, publish a new version, record new version
  into ClusterConfig", which may raise and may change the configuration).
\<close>

record env =
  exit_ok :: "event list \<Rightarrow> string list \<Rightarrow> bool"
  render :: "string \<Rightarrow> string list option \<Rightarrow> string"
  create_and_upload :: "processor \<Rightarrow> config \<Rightarrow> error option \<times> config"

text \<open>
  \<open>stdin\<close> holds what the operator will still enter: \<open>Some l\<close> is the line \<open>l\<close>,
  \<open>None\<close> is an end of file (on which \<^verbatim>\<open>raw_input\<close> raises \<^verbatim>\<open>EOFError\<close>).
\<close>

record world =
  CONFIG :: config
  stdin :: "string option list"
  trace :: "event list"

subsection \<open>run\_command and continue\_prompt\<close>

text \<open>
  The keyword arguments \<^verbatim>\<open>quiet\<close> and \<^verbatim>\<open>error_message\<close> of \<^verbatim>\<open>run_command\<close> change what is
  printed, not what is run or returned.
\<close>

definition run_command :: "env \<Rightarrow> string list \<Rightarrow> world \<Rightarrow> bool \<times> world" where
  "run_command e args w =
     (let ok = exit_ok e (trace w) args
      in (ok, w\<lparr>trace := trace w @ [Command args ok]\<rparr>))"

text \<open>
  One call of \<^verbatim>\<open>raw_input\<close>: the prompt is printed, then a line is read. With no input
  left the call does not return.
\<close>

definition raw_input :: "world \<Rightarrow> (error + string) option \<times> world" where
  "raw_input w =
     (case stdin w of
        [] \<Rightarrow> (None, w\<lparr>trace := trace w @ [Prompt]\<rparr>)
      | None # rest \<Rightarrow> (Some (Inl EOFError), w\<lparr>stdin := rest, trace := trace w @ [Prompt]\<rparr>)
      | Some line # rest \<Rightarrow> (Some (Inr line), w\<lparr>stdin := rest, trace := trace w @ [Prompt]\<rparr>))"

definition required_responses :: "string set" where
  "required_responses = {''yes'', ''no''}"

text \<open>The \<^verbatim>\<open>while\<close> loop of \<^verbatim>\<open>continue_prompt\<close>, from the current value of \<^verbatim>\<open>response\<close>.\<close>

function while_response :: "string \<Rightarrow> world \<Rightarrow> (error + string) option \<times> world" where
  "while_response response w =
     (if response \<notin> required_responses then
        (case raw_input w of
           (None, w') \<Rightarrow> (None, w')
         | (Some (Inl err), w') \<Rightarrow> (Some (Inl err), w')
         | (Some (Inr line), w') \<Rightarrow> while_response line w')
      else (Some (Inr response), w))"
  by pat_completeness auto
termination
proof (relation "measure (\<lambda>(response, w). length (stdin w))")
  show "wf (measure (\<lambda>(response, w). length (stdin w)))"
    by simp
next
  fix response :: string and w x1 and x2 :: world and a and line :: string
  assume "(x1, x2) = raw_input w" "x1 = Some a" "a = Inr line"
  then have "length (stdin x2) < length (stdin w)"
    by (auto simp: raw_input_def split: list.splits option.splits)
  then show "((line, x2), (response, w)) \<in> measure (\<lambda>(response, w). length (stdin w))"
    by simp
qed

definition continue_prompt :: "world \<Rightarrow> (error + bool) option \<times> world" where
  "continue_prompt w =
     (case while_response [] w of
        (None, w') \<Rightarrow> (None, w')
      | (Some (Inl err), w') \<Rightarrow> (Some (Inl err), w')
      | (Some (Inr response), w') \<Rightarrow>
          (if response = ''yes'' then (Some (Inr True), w') else (Some (Inr False), w')))"

subsection \<open>refresh\_tf\_state and tf\_runner\<close>

definition refresh_tf_state :: "env \<Rightarrow> world \<Rightarrow> world" where
  "refresh_tf_state e w =
     (let region = account_region (CONFIG w);
          bucket = account_prefix (CONFIG w) @ ''.streamalert.terraform.state'';
          s3_key = terraform_tfstate_s3_key (CONFIG w);
          kms_key_id = ''alias/'' @ account_kms_key_alias (CONFIG w);
          remote_state_opts =
            [''terraform'', ''remote'', ''config'', ''-backend=s3'',
             ''-backend-config=bucket='' @ bucket,
             ''-backend-config=key='' @ s3_key,
             ''-backend-config=region='' @ region,
             ''-backend-config=kms_key_id='' @ kms_key_id,
             ''-backend-config=encrypt=true'']
      in snd (run_command e remote_state_opts w))"

text \<open>
  \<^verbatim>\<open>tf_runner\<close>, lines 209 to 213: the plan command. \<open>action\<close> is the keyword argument
  of that name, \<open>None\<close> when it is not given.
\<close>

definition tf_plan_command :: "config \<Rightarrow> string list \<Rightarrow> string option \<Rightarrow> string list" where
  "tf_plan_command cfg targets action =
     (let tf_opts = [''-var-file=../'' @ filename cfg];
          tf_targets = map (\<lambda>x. ''-target='' @ x) targets;
          tf_command = [''terraform'', ''plan''] @ tf_opts @ tf_targets
      in if action = Some ''destroy'' then tf_command @ [''-destroy''] else tf_command)"

text \<open>
  Lines 226 to 236: the plan command rewritten in place into the command that changes
  the infrastructure. \<open>tf_action_index\<close> is 1; \<^verbatim>\<open>list.remove\<close> deletes the first
  occurrence. An empty \<open>action\<close> is false in Python, as \<open>None\<close> is.
\<close>

definition tf_action_command :: "string list \<Rightarrow> string option \<Rightarrow> string list" where
  "tf_action_command tf_command action =
     (case action of
        None \<Rightarrow> tf_command[1 := ''apply'']
      | Some a \<Rightarrow>
          if a = ''destroy'' then remove1 ''-destroy'' (tf_command[1 := a])
          else if a \<noteq> [] then tf_command[1 := a]
          else tf_command[1 := ''apply''])"

text \<open>
  Lines 215 to 219: the remote state is refreshed when asked for, then the modules are
  resolved with \<^verbatim>\<open>terraform get\<close>. Neither result is read.
\<close>

definition tf_setup :: "env \<Rightarrow> bool \<Rightarrow> world \<Rightarrow> world" where
  "tf_setup e refresh_state w =
     (let w1 = (if refresh_state then refresh_tf_state e w else w)
      in snd (run_command e [''terraform'', ''get''] w1))"

text \<open>
  \<^verbatim>\<open>tf_runner(targets=..., action=..., refresh_state=...)\<close>. Line 222 is Python's
  short-circuit \<^verbatim>\<open>and\<close>: the prompt runs only after a plan that succeeded.
\<close>

definition tf_runner ::
  "env \<Rightarrow> string list \<Rightarrow> string option \<Rightarrow> bool \<Rightarrow> world \<Rightarrow> (error + bool) option \<times> world" where
  "tf_runner e targets action refresh_state w =
     (let tf_command = tf_plan_command (CONFIG w) targets action;
          w1 = tf_setup e refresh_state w
      in case run_command e tf_command w1 of
           (False, w2) \<Rightarrow> (Some (Inr False), w2)
         | (True, w2) \<Rightarrow>
             (case continue_prompt w2 of
                (None, w3) \<Rightarrow> (None, w3)
              | (Some (Inl err), w3) \<Rightarrow> (Some (Inl err), w3)
              | (Some (Inr False), w3) \<Rightarrow> (Some (Inr False), w3)
              | (Some (Inr True), w3) \<Rightarrow>
                  (Some (Inr True),
                   snd (run_command e (tf_action_command tf_command action) w3))))"

subsection \<open>rollback\<close>

text \<open>
  Python 2's \<^verbatim>\<open>int(x)\<close> on a value of the configuration: a number is itself; a string
  is stripped of surrounding white space and read as an optional sign followed by
  decimal digits, anything else raises \<^verbatim>\<open>ValueError\<close>.

  The strings of \<^verbatim>\<open>variables.json\<close> are Unicode strings, held here as their UTF-8 bytes.
  \<open>blanks\<close> lists the characters that Python 2.7 takes for white space in a Unicode
  string: U+0009 to U+000D, U+001C to U+0020, U+0085, U+00A0, U+1680, U+180E, U+2000 to
  U+200A, U+2028, U+2029, U+202F, U+205F and U+3000. The digits read are \<^verbatim>\<open>0\<close> to \<^verbatim>\<open>9\<close>;
  the decimal digits of other scripts, which \<^verbatim>\<open>int\<close> converts as well, raise
  \<^verbatim>\<open>ValueError\<close> here.
\<close>

definition blanks :: "string list" where
  "blanks =
     map (\<lambda>c. [c])
       [CHR 0x09, CHR 0x0A, CHR 0x0B, CHR 0x0C, CHR 0x0D,
        CHR 0x1C, CHR 0x1D, CHR 0x1E, CHR 0x1F, CHR 0x20]
     @ [[CHR 0xC2, CHR 0x85], [CHR 0xC2, CHR 0xA0],
        [CHR 0xE1, CHR 0x9A, CHR 0x80], [CHR 0xE1, CHR 0xA0, CHR 0x8E]]
     @ map (\<lambda>c. [CHR 0xE2, CHR 0x80, c])
         [CHR 0x80, CHR 0x81, CHR 0x82, CHR 0x83, CHR 0x84, CHR 0x85, CHR 0x86, CHR 0x87,
          CHR 0x88, CHR 0x89, CHR 0x8A, CHR 0xA8, CHR 0xA9, CHR 0xAF]
     @ [[CHR 0xE2, CHR 0x81, CHR 0x9F], [CHR 0xE3, CHR 0x80, CHR 0x80]]"

text \<open>Drops from the front of \<open>s\<close> every leading occurrence of one of the strings \<open>bs\<close>.\<close>

function lstrip :: "string list \<Rightarrow> string \<Rightarrow> string" where
  "lstrip bs s =
     (case find (\<lambda>b. b \<noteq> [] \<and> take (length b) s = b) bs of
        None \<Rightarrow> s
      | Some b \<Rightarrow> lstrip bs (drop (length b) s))"
  by pat_completeness auto
termination
proof (relation "measure (\<lambda>(bs, s). length s)")
  show "wf (measure (\<lambda>(bs, s). length s))"
    by simp
next
  fix bs :: "string list" and s b :: string
  assume "find (\<lambda>b. b \<noteq> [] \<and> take (length b) s = b) bs = Some b"
  then have "b \<noteq> []" and "take (length b) s = b"
    by (auto simp: find_Some_iff)
  then have "length (take (length b) s) = length b"
    by simp
  then have "length b \<le> length s"
    by simp
  moreover have "0 < length b"
    using \<open>b \<noteq> []\<close> by simp
  ultimately have "length (drop (length b) s) < length s"
    by (simp del: length_greater_0_conv)
  then show "((bs, drop (length b) s), (bs, s)) \<in> measure (\<lambda>(bs, s). length s)"
    by simp
qed

definition is_digit :: "char \<Rightarrow> bool" where
  "is_digit c = (c \<in> set ''0123456789'')"

definition py_strip :: "string \<Rightarrow> string" where
  "py_strip s = rev (lstrip (map rev blanks) (rev (lstrip blanks s)))"

definition int_of_digits :: "string \<Rightarrow> int" where
  "int_of_digits ds = foldl (\<lambda>a c. 10 * a + (int (of_char c) - 48)) 0 ds"

definition py_int :: "pyval \<Rightarrow> error + int" where
  "py_int v =
     (case v of
        PInt n \<Rightarrow> Inr n
      | PStr s \<Rightarrow>
          (let t = py_strip s;
               neg = (take 1 t = ''-'');
               ds = (if take 1 t = ''-'' \<or> take 1 t = ''+'' then drop 1 t else t)
           in if ds \<noteq> [] \<and> list_all is_digit ds
              then Inr (if neg then - int_of_digits ds else int_of_digits ds)
              else Inl (ValueError s)))"

text \<open>
  The body of the inner loop of \<^verbatim>\<open>rollback\<close>, lines 273 to 278. The key is the literal
  \<^verbatim>\<open>'{}_versions'\<close>: the source does not format \<open>lambda_function\<close> into it, so the
  argument is not used. An exception leaves the configuration as it was when raised.
\<close>

definition rollback_version :: "string \<Rightarrow> string \<Rightarrow> config \<Rightarrow> (error + unit) \<times> config" where
  "rollback_version cluster lambda_function cfg =
     (case map_of (tables cfg) ''{}_versions'' of
        None \<Rightarrow> (Inl (KeyError ''{}_versions''), cfg)
      | Some versions \<Rightarrow>
          (case map_of versions cluster of
             None \<Rightarrow> (Inl (KeyError cluster), cfg)
           | Some current_vers \<Rightarrow>
               if current_vers \<noteq> PStr ''$LATEST'' then
                 (case py_int current_vers of
                    Inl err \<Rightarrow> (Inl err, cfg)
                  | Inr n \<Rightarrow>
                      if n > 1 then
                        (Inr (),
                         cfg\<lparr>tables :=
                           AList.update ''{}_versions''
                             (AList.update cluster (PInt (n - 1)) versions) (tables cfg)\<rparr>)
                      else (Inr (), cfg))
               else (Inr (), cfg)))"

fun rollback_functions :: "string \<Rightarrow> string list \<Rightarrow> config \<Rightarrow> (error + unit) \<times> config" where
  "rollback_functions cluster [] cfg = (Inr (), cfg)"
| "rollback_functions cluster (lambda_function # rest) cfg =
     (case rollback_version cluster lambda_function cfg of
        (Inl err, cfg') \<Rightarrow> (Inl err, cfg')
      | (Inr u, cfg') \<Rightarrow> rollback_functions cluster rest cfg')"

fun rollback_clusters :: "string list \<Rightarrow> config \<Rightarrow> (error + unit) \<times> config" where
  "rollback_clusters [] cfg = (Inr (), cfg)"
| "rollback_clusters (cluster # rest) cfg =
     (case rollback_functions cluster [''rule_processor'', ''alert_processor''] cfg of
        (Inl err, cfg') \<Rightarrow> (Inl err, cfg')
      | (Inr u, cfg') \<Rightarrow> rollback_clusters rest cfg')"

definition rollback :: "world \<Rightarrow> (error + unit) \<times> world" where
  "rollback w =
     (case rollback_clusters (map fst (clusters (CONFIG w))) (CONFIG w) of
        (r, cfg') \<Rightarrow> (r, w\<lparr>CONFIG := cfg'\<rparr>))"

text \<open>The value stored for a cluster in the table under a top-level key, if any.\<close>

definition pointer :: "config \<Rightarrow> string \<Rightarrow> string \<Rightarrow> pyval option" where
  "pointer cfg key cluster =
     (case map_of (tables cfg) key of None \<Rightarrow> None | Some versions \<Rightarrow> map_of versions cluster)"

subsection \<open>generate\_tf\_files\<close>

text \<open>
  The loop of \<^verbatim>\<open>generate_tf_files\<close> over the cluster names, lines 288 to 299.
  \<^verbatim>\<open>if all_buckets\<close> holds for a dictionary that is there and not empty;
  \<^verbatim>\<open>all_buckets.get(cluster)\<close> is \<open>None\<close> for a cluster it does not list.
\<close>

fun generate_clusters ::
  "env \<Rightarrow> (string \<times> string list) list option \<Rightarrow> string list \<Rightarrow> world \<Rightarrow> (error + unit) \<times> world" where
  "generate_clusters e all_buckets [] w = (Inr (), w)"
| "generate_clusters e all_buckets (cluster # rest) w =
     (if cluster = ''main''
      then (Inl (InvalidClusterName ''Rename cluster main to something else!''), w)
      else
        (let buckets =
               (case all_buckets of
                  None \<Rightarrow> None
                | Some bs \<Rightarrow> if bs \<noteq> [] then map_of bs cluster else None);
             contents = render e cluster buckets;
             w' = w\<lparr>trace := trace w @ [FileWrite (''terraform/'' @ cluster @ ''.tf'') contents]\<rparr>
         in generate_clusters e all_buckets rest w'))"

definition generate_tf_files :: "env \<Rightarrow> world \<Rightarrow> (error + unit) \<times> world" where
  "generate_tf_files e w =
     generate_clusters e (s3_event_buckets (CONFIG w)) (map fst (clusters (CONFIG w))) w"

subsection \<open>deploy\<close>

definition deploy_rule_processor :: "env \<Rightarrow> world \<Rightarrow> error option \<times> world" where
  "deploy_rule_processor e w =
     (case create_and_upload e RuleProcessorPackage (CONFIG w) of
        (r, cfg') \<Rightarrow>
          (r, w\<lparr>CONFIG := cfg', trace := trace w @ [CreateAndUpload RuleProcessorPackage]\<rparr>))"

definition deploy_alert_processor :: "env \<Rightarrow> world \<Rightarrow> error option \<times> world" where
  "deploy_alert_processor e w =
     (case create_and_upload e AlertProcessorPackage (CONFIG w) of
        (r, cfg') \<Rightarrow>
          (r, w\<lparr>CONFIG := cfg', trace := trace w @ [CreateAndUpload AlertProcessorPackage]\<rparr>))"

text \<open>
  Lines 332 to 340: the chain of \<^verbatim>\<open>if\<close>/\<^verbatim>\<open>elif\<close> on \<^verbatim>\<open>options.processor\<close>, which has no
  \<^verbatim>\<open>else\<close> branch.
\<close>

definition deploy_processors :: "env \<Rightarrow> string \<Rightarrow> world \<Rightarrow> error option \<times> world" where
  "deploy_processors e processor w =
     (if processor = ''rule'' then deploy_rule_processor e w
      else if processor = ''alert'' then deploy_alert_processor e w
      else if processor = ''all'' then
        (case deploy_rule_processor e w of
           (Some err, w') \<Rightarrow> (Some err, w')
         | (None, w') \<Rightarrow> deploy_alert_processor e w')
      else (None, w))"

text \<open>A call whose return value the caller does not read.\<close>

definition discard :: "(error + 'a) option \<times> world \<Rightarrow> (error + unit) option \<times> world" where
  "discard r =
     (case r of
        (None, w) \<Rightarrow> (None, w)
      | (Some (Inl err), w) \<Rightarrow> (Some (Inl err), w)
      | (Some (Inr v), w) \<Rightarrow> (Some (Inr ()), w))"

text \<open>
  \<^verbatim>\<open>deploy(options)\<close>, with \<open>processor\<close> the value of \<^verbatim>\<open>options.processor\<close>. The targets
  are computed from the clusters before any package is built.
\<close>

definition deploy :: "env \<Rightarrow> string \<Rightarrow> world \<Rightarrow> (error + unit) option \<times> world" where
  "deploy e processor w =
     (let targets = map (\<lambda>x. ''module.stream_alert_'' @ x) (map fst (clusters (CONFIG w)))
      in case deploy_processors e processor w of
           (Some err, w') \<Rightarrow> (Some (Inl err), w')
         | (None, w') \<Rightarrow> discard (tf_runner e targets None True w'))"

subsection \<open>terraform\_runner\<close>

text \<open>
  The subcommands of \<^verbatim>\<open>terraform\<close> that change something. The report printed by
  \<^verbatim>\<open>status\<close> is not part of this development.
\<close>

datatype subcommand = Build | Generate | Init | Destroy

record options =
  subcommand :: subcommand
  target :: "string option"

definition terraform_check :: "env \<Rightarrow> world \<Rightarrow> world" where
  "terraform_check e w = snd (run_command e [''terraform'', ''version''] w)"

definition init_targets :: "string list" where
  "init_targets =
     [''aws_s3_bucket.lambda_source'',
      ''aws_s3_bucket.integration_testing'',
      ''aws_s3_bucket.terraform_remote_state'',
      ''aws_kms_key.stream_alert_secrets'',
      ''aws_kms_alias.stream_alert_secrets'']"

text \<open>Lines 98 to 104, the \<^verbatim>\<open>build\<close> subcommand. An empty \<^verbatim>\<open>--target\<close> is false in Python.\<close>

definition terraform_build :: "env \<Rightarrow> string option \<Rightarrow> world \<Rightarrow> (error + unit) option \<times> world" where
  "terraform_build e tgt w =
     (case tgt of
        None \<Rightarrow> discard (tf_runner e [] None True w)
      | Some t \<Rightarrow>
          if t \<noteq> [] then
            (let targets = map (\<lambda>cluster. ''module.'' @ t @ ''_'' @ cluster)
                             (map fst (clusters (CONFIG w)))
             in discard (tf_runner e targets None True w))
          else discard (tf_runner e [] None True w))"

text \<open>Lines 112 to 134, the \<^verbatim>\<open>init\<close> subcommand.\<close>

definition terraform_init :: "env \<Rightarrow> world \<Rightarrow> (error + unit) option \<times> world" where
  "terraform_init e w =
     (case generate_tf_files e w of
        (Inl err, w1) \<Rightarrow> (Some (Inl err), w1)
      | (Inr u, w1) \<Rightarrow>
          (case discard (tf_runner e init_targets None False w1) of
             (Some (Inr u), w2) \<Rightarrow>
               (case deploy e ''all'' (refresh_tf_state e w2) of
                  (Some (Inr u), w3) \<Rightarrow> discard (tf_runner e [] None True w3)
                | (r, w3) \<Rightarrow> (r, w3))
           | (r, w2) \<Rightarrow> (r, w2)))"

definition terraform_runner :: "env \<Rightarrow> options \<Rightarrow> world \<Rightarrow> (error + unit) option \<times> world" where
  "terraform_runner e opts w =
     (let w0 = terraform_check e w
      in case subcommand opts of
           Build \<Rightarrow> terraform_build e (target opts) w0
         | Generate \<Rightarrow>
             (case generate_tf_files e w0 of (r, w1) \<Rightarrow> (Some r, w1))
         | Init \<Rightarrow> terraform_init e w0
         | Destroy \<Rightarrow>
             (let w1 = snd (run_command e [''terraform'', ''remote'', ''config'', ''-disable''] w0)
              in discard (tf_runner e [] (Some ''destroy'') False w1)))"

subsection \<open>Reading a trace\<close>

text \<open>A command whose verb is \<^verbatim>\<open>apply\<close> or \<^verbatim>\<open>destroy\<close>.\<close>

definition mutating :: "event \<Rightarrow> bool" where
  "mutating ev =
     (case ev of
        Command args ok \<Rightarrow>
          take 2 args = [''terraform'', ''apply''] \<or> take 2 args = [''terraform'', ''destroy'']
      | Prompt \<Rightarrow> False
      | CreateAndUpload p \<Rightarrow> False
      | FileWrite path contents \<Rightarrow> False)"

text \<open>The arguments of the commands run, in order.\<close>

fun commands :: "event list \<Rightarrow> string list list" where
  "commands [] = []"
| "commands (Command args ok # evs) = args # commands evs"
| "commands (ev # evs) = commands evs"

text \<open>The paths of the files written, in order.\<close>

fun files_written :: "event list \<Rightarrow> string list" where
  "files_written [] = []"
| "files_written (FileWrite path contents # evs) = path # files_written evs"
| "files_written (ev # evs) = files_written evs"

text \<open>The packages built, in order.\<close>

fun packages_built :: "event list \<Rightarrow> processor list" where
  "packages_built [] = []"
| "packages_built (CreateAndUpload p # evs) = p # packages_built evs"
| "packages_built (ev # evs) = packages_built evs"

text \<open>The \<^verbatim>\<open>terraform plan\<close> commands among the commands run.\<close>

definition plan_commands :: "event list \<Rightarrow> string list list" where
  "plan_commands evs = filter (\<lambda>args. take 2 args = [''terraform'', ''plan'']) (commands evs)"

subsection \<open>Version pointers\<close>

text \<open>
  A version pointer is the sentinel \<^verbatim>\<open>$LATEST\<close> or a version number that is at least 1
  (as a number, or as the string that \<^verbatim>\<open>int\<close> reads as that number). A configuration
  is well formed when every value of every table is one.
\<close>

definition valid_pointer :: "pyval \<Rightarrow> bool" where
  "valid_pointer v =
     (v = PStr ''$LATEST'' \<or> (case py_int v of Inl err \<Rightarrow> False | Inr n \<Rightarrow> 1 \<le> n))"

definition pointers_valid :: "config \<Rightarrow> bool" where
  "pointers_valid cfg =
     list_all (\<lambda>(key, versions). list_all (\<lambda>(cluster, v). valid_pointer v) versions) (tables cfg)"

subsection \<open>A configuration and its surroundings, for concrete runs\<close>

text \<open>Two clusters, with the version tables of \<^verbatim>\<open>variables.json\<close>.\<close>

definition variables_json :: config where
  "variables_json =
     \<lparr>filename = ''variables.json'',
      clusters = [(''prod'', ''us-east-1''), (''staging'', ''us-west-2'')],
      account_region = ''us-east-1'',
      account_prefix = ''acme'',
      account_kms_key_alias = ''stream_alert_secrets'',
      terraform_tfstate_s3_key = ''stream_alert_state/terraform.tfstate'',
      s3_event_buckets = None,
      tables =
        [(''rule_processor_versions'', [(''prod'', PInt 5), (''staging'', PStr ''$LATEST'')]),
         (''alert_processor_versions'', [(''prod'', PInt 5), (''staging'', PInt 1)])]\<rparr>"

text \<open>The same with a table under the key that \<^verbatim>\<open>rollback\<close> reads.\<close>

definition variables_json_braces :: config where
  "variables_json_braces =
     variables_json\<lparr>tables :=
       (''{}_versions'', [(''prod'', PInt 5), (''staging'', PStr ''$LATEST'')])
         # tables variables_json\<rparr>"

text \<open>A cluster named \<^verbatim>\<open>main\<close> after a well-named one.\<close>

definition variables_json_main :: config where
  "variables_json_main =
     variables_json\<lparr>clusters := [(''prod'', ''us-east-1''), (''main'', ''us-west-2'')]\<rparr>"

text \<open>
  Surroundings in which exactly the commands satisfying \<open>fails\<close> exit with a non-zero
  status, the template renders the cluster name, and packaging succeeds.
\<close>

definition env_failing :: "(string list \<Rightarrow> bool) \<Rightarrow> env" where
  "env_failing fails =
     \<lparr>exit_ok = (\<lambda>history args. if fails args then False else True),
      render = (\<lambda>cluster buckets. cluster),
      create_and_upload = (\<lambda>p cfg. (None, cfg))\<rparr>"

definition world_of :: "config \<Rightarrow> string list \<Rightarrow> world" where
  "world_of cfg lines = \<lparr>CONFIG = cfg, stdin = map Some lines, trace = []\<rparr>"

section \<open>Properties\<close>

subsection \<open>The prompt\<close>

declare while_response.simps [simp del]

lemma run_command_eq:
  "run_command e args w =
     (exit_ok e (trace w) args, w\<lparr>trace := trace w @ [Command args (exit_ok e (trace w) args)]\<rparr>)"
  by (simp add: run_command_def Let_def)

lemma raw_input_cases:
  "raw_input w = (res, w') \<Longrightarrow>
     CONFIG w' = CONFIG w \<and> trace w' = trace w @ [Prompt] \<and> length (stdin w') \<le> length (stdin w)"
  by (auto simp: raw_input_def split: list.splits option.splits)

lemma while_response_world:
  "while_response response w = (res, w') \<Longrightarrow>
     CONFIG w' = CONFIG w \<and> (\<exists>k. trace w' = trace w @ replicate k Prompt)"
proof (induction response w arbitrary: res w' rule: while_response.induct)
  case (1 response w)
  show ?case
  proof (cases "response \<in> required_responses")
    case True
    with "1.prems" show ?thesis
      by (simp add: while_response.simps [of response w])
  next
    case False
    obtain r1 w1 where r1: "raw_input w = (r1, w1)"
      by (cases "raw_input w")
    note step = raw_input_cases [OF r1]
    show ?thesis
    proof (cases r1)
      case None
      with False r1 "1.prems" have "w' = w1"
        by (simp add: while_response.simps [of response w])
      with step have "CONFIG w' = CONFIG w" "trace w' = trace w @ replicate 1 Prompt"
        by simp_all
      then show ?thesis by blast
    next
      case (Some a)
      show ?thesis
      proof (cases a)
        case (Inl err)
        with Some False r1 "1.prems" have "w' = w1"
          by (simp add: while_response.simps [of response w])
        with step have "CONFIG w' = CONFIG w" "trace w' = trace w @ replicate 1 Prompt"
          by simp_all
        then show ?thesis by blast
      next
        case (Inr line)
        with Some False r1 "1.prems" have rec: "while_response line w1 = (res, w')"
          by (simp add: while_response.simps [of response w])
        from "1.IH" [OF False r1 [symmetric] Some Inr rec]
        obtain k where "CONFIG w' = CONFIG w1" "trace w' = trace w1 @ replicate k Prompt"
          by blast
        with step have "CONFIG w' = CONFIG w" "trace w' = trace w @ replicate (Suc k) Prompt"
          by simp_all
        then show ?thesis by blast
      qed
    qed
  qed
qed

lemma continue_prompt_world:
  assumes "continue_prompt w = (res, w')"
  shows "CONFIG w' = CONFIG w \<and> (\<exists>k. trace w' = trace w @ Prompt # replicate k Prompt)"
proof -
  obtain r0 w0 where r0: "while_response [] w = (r0, w0)"
    by (cases "while_response [] w")
  with assms have w': "w' = w0"
    by (auto simp: continue_prompt_def split: option.splits sum.splits if_splits)
  obtain r1 w1 where r1: "raw_input w = (r1, w1)"
    by (cases "raw_input w")
  note step = raw_input_cases [OF r1]
  have "CONFIG w0 = CONFIG w1 \<and> (\<exists>k. trace w0 = trace w1 @ replicate k Prompt)"
  proof (cases r1)
    case None
    with r0 r1 have "w0 = w1"
      by (simp add: while_response.simps [of "[]" w] required_responses_def)
    then have "CONFIG w0 = CONFIG w1" "trace w0 = trace w1 @ replicate 0 Prompt"
      by simp_all
    then show ?thesis by blast
  next
    case (Some a)
    show ?thesis
    proof (cases a)
      case (Inl err)
      with Some r0 r1 have "w0 = w1"
        by (simp add: while_response.simps [of "[]" w] required_responses_def)
      then have "CONFIG w0 = CONFIG w1" "trace w0 = trace w1 @ replicate 0 Prompt"
        by simp_all
      then show ?thesis by blast
    next
      case (Inr line)
      with Some r0 r1 have "while_response line w1 = (r0, w0)"
        by (simp add: while_response.simps [of "[]" w] required_responses_def)
      then show ?thesis
        by (rule while_response_world)
    qed
  qed
  with step w' show ?thesis
    by auto
qed

lemma while_response_skips:
  assumes "\<forall>l \<in> set pre. l \<notin> required_responses" and "response \<notin> required_responses"
    and "stdin w = map Some pre @ rest"
  shows "\<exists>r. r \<notin> required_responses \<and>
           while_response response w =
           while_response r (w\<lparr>stdin := rest, trace := trace w @ replicate (length pre) Prompt\<rparr>)"
  using assms
proof (induction pre arbitrary: response w)
  case Nil
  then have "w\<lparr>stdin := rest, trace := trace w @ replicate (length []) Prompt\<rparr> = w"
    by (cases w) simp
  with Nil.prems(2) show ?case by metis
next
  case (Cons l pre)
  define w1 where "w1 = w\<lparr>stdin := map Some pre @ rest, trace := trace w @ [Prompt]\<rparr>"
  have step: "while_response response w = while_response l w1"
    using Cons.prems(2,3)
    by (simp add: while_response.simps [of response w] raw_input_def w1_def)
  have "l \<notin> required_responses" "\<forall>l \<in> set pre. l \<notin> required_responses"
    using Cons.prems(1) by simp_all
  moreover have "stdin w1 = map Some pre @ rest"
    by (simp add: w1_def)
  ultimately obtain r where r: "r \<notin> required_responses"
    and eq: "while_response l w1 =
      while_response r (w1\<lparr>stdin := rest, trace := trace w1 @ replicate (length pre) Prompt\<rparr>)"
    using Cons.IH [of l w1] by blast
  have "w1\<lparr>stdin := rest, trace := trace w1 @ replicate (length pre) Prompt\<rparr> =
        w\<lparr>stdin := rest, trace := trace w @ replicate (length (l # pre)) Prompt\<rparr>"
    by (simp add: w1_def)
  with step eq r show ?case
    by metis
qed

lemma while_response_blocked:
  assumes "\<forall>l \<in> set pre. l \<notin> required_responses" and "response \<notin> required_responses"
    and "stdin w = map Some pre"
  shows "while_response response w =
         (None, w\<lparr>stdin := [], trace := trace w @ replicate (Suc (length pre)) Prompt\<rparr>)"
proof -
  from assms(3) have "stdin w = map Some pre @ []"
    by simp
  from while_response_skips [OF assms(1,2) this]
  obtain r where r: "r \<notin> required_responses"
    and eq: "while_response response w =
      while_response r (w\<lparr>stdin := [], trace := trace w @ replicate (length pre) Prompt\<rparr>)"
    by blast
  have "while_response r (w\<lparr>stdin := [], trace := trace w @ replicate (length pre) Prompt\<rparr>) =
        (None, w\<lparr>stdin := [], trace := trace w @ replicate (Suc (length pre)) Prompt\<rparr>)"
    using r
    by (simp add: while_response.simps [of r] raw_input_def replicate_append_same)
  with eq show ?thesis by simp
qed

lemma while_response_answered:
  assumes "\<forall>l \<in> set pre. l \<notin> required_responses" and "response \<notin> required_responses"
    and "answer \<in> required_responses" and "stdin w = map Some pre @ Some answer # rest"
  shows "while_response response w =
         (Some (Inr answer), w\<lparr>stdin := rest, trace := trace w @ replicate (Suc (length pre)) Prompt\<rparr>)"
proof -
  from while_response_skips [OF assms(1,2,4)]
  obtain r where r: "r \<notin> required_responses"
    and eq: "while_response response w =
      while_response r
        (w\<lparr>stdin := Some answer # rest, trace := trace w @ replicate (length pre) Prompt\<rparr>)"
    by blast
  have "while_response r
          (w\<lparr>stdin := Some answer # rest, trace := trace w @ replicate (length pre) Prompt\<rparr>) =
        while_response answer
          (w\<lparr>stdin := rest, trace := trace w @ replicate (Suc (length pre)) Prompt\<rparr>)"
    using r
    by (simp add: while_response.simps [of r] raw_input_def replicate_append_same)
  also have "\<dots> =
      (Some (Inr answer), w\<lparr>stdin := rest, trace := trace w @ replicate (Suc (length pre)) Prompt\<rparr>)"
    using assms(3) by (simp add: while_response.simps [of answer])
  finally show ?thesis
    using eq by simp
qed

lemma continue_prompt_blocked:
  assumes "\<forall>l \<in> set pre. l \<noteq> ''yes'' \<and> l \<noteq> ''no''" and "stdin w = map Some pre"
  shows "continue_prompt w =
         (None, w\<lparr>stdin := [], trace := trace w @ replicate (Suc (length pre)) Prompt\<rparr>)"
proof -
  have "\<forall>l \<in> set pre. l \<notin> required_responses" "[] \<notin> required_responses"
    using assms(1) by (simp_all add: required_responses_def)
  from while_response_blocked [OF this assms(2)] show ?thesis
    by (simp add: continue_prompt_def)
qed

lemma continue_prompt_answered:
  assumes "\<forall>l \<in> set pre. l \<noteq> ''yes'' \<and> l \<noteq> ''no''"
    and "answer = ''yes'' \<or> answer = ''no''"
    and "stdin w = map Some pre @ Some answer # rest"
  shows "continue_prompt w =
         (Some (Inr (answer = ''yes'')),
          w\<lparr>stdin := rest, trace := trace w @ replicate (Suc (length pre)) Prompt\<rparr>)"
proof -
  have "\<forall>l \<in> set pre. l \<notin> required_responses" "[] \<notin> required_responses"
    "answer \<in> required_responses"
    using assms(1,2) by (auto simp: required_responses_def)
  from while_response_answered [OF this assms(3)] show ?thesis
    by (simp add: continue_prompt_def)
qed

lemma while_response_eof:
  assumes "\<forall>l \<in> set pre. l \<notin> required_responses" and "response \<notin> required_responses"
    and "stdin w = map Some pre @ None # rest"
  shows "while_response response w =
         (Some (Inl EOFError),
          w\<lparr>stdin := rest, trace := trace w @ replicate (Suc (length pre)) Prompt\<rparr>)"
proof -
  from while_response_skips [OF assms]
  obtain r where r: "r \<notin> required_responses"
    and eq: "while_response response w =
      while_response r
        (w\<lparr>stdin := None # rest, trace := trace w @ replicate (length pre) Prompt\<rparr>)"
    by blast
  have "while_response r
          (w\<lparr>stdin := None # rest, trace := trace w @ replicate (length pre) Prompt\<rparr>) =
        (Some (Inl EOFError),
         w\<lparr>stdin := rest, trace := trace w @ replicate (Suc (length pre)) Prompt\<rparr>)"
    using r
    by (simp add: while_response.simps [of r] raw_input_def replicate_append_same)
  with eq show ?thesis by simp
qed

lemma continue_prompt_eof:
  assumes "\<forall>l \<in> set pre. l \<noteq> ''yes'' \<and> l \<noteq> ''no''"
    and "stdin w = map Some pre @ None # rest"
  shows "continue_prompt w =
         (Some (Inl EOFError),
          w\<lparr>stdin := rest, trace := trace w @ replicate (Suc (length pre)) Prompt\<rparr>)"
proof -
  have "\<forall>l \<in> set pre. l \<notin> required_responses" "[] \<notin> required_responses"
    using assms(1) by (simp_all add: required_responses_def)
  from while_response_eof [OF this assms(2)] show ?thesis
    by (simp add: continue_prompt_def)
qed

lemma stdin_shape:
  "\<exists>pre. (\<forall>l \<in> set pre. l \<notin> required_responses) \<and>
     (xs = map Some pre
      \<or> (\<exists>rest. xs = map Some pre @ None # rest)
      \<or> (\<exists>answer rest. xs = map Some pre @ Some answer # rest \<and>
            answer \<in> required_responses))"
proof -
  define other where
    "other = (\<lambda>x. case x of None \<Rightarrow> False | Some l \<Rightarrow> l \<notin> required_responses)"
  define pre where "pre = map the (takeWhile other xs)"
  have some: "map Some (map the ys) = ys" if "\<forall>y \<in> set ys. other y" for ys
    using that by (induction ys) (auto simp: other_def split: option.splits)
  have "\<forall>y \<in> set (takeWhile other xs). other y"
    by (auto dest: set_takeWhileD)
  then have front: "map Some pre = takeWhile other xs"
    unfolding pre_def by (rule some)
  have lines: "\<forall>l \<in> set pre. l \<notin> required_responses"
  proof
    fix l
    assume "l \<in> set pre"
    then have "Some l \<in> set (map Some pre)"
      by simp
    then have "other (Some l)"
      unfolding front by (auto dest: set_takeWhileD)
    then show "l \<notin> required_responses"
      by (simp add: other_def)
  qed
  have split: "xs = map Some pre @ dropWhile other xs"
    unfolding front by simp
  show ?thesis
  proof (cases "dropWhile other xs")
    case Nil
    with split have "xs = map Some pre"
      by simp
    with lines show ?thesis
      by (intro exI [of _ pre] conjI disjI1)
  next
    case (Cons y rest)
    then have "\<not> other y"
      using hd_dropWhile [of other xs] by simp
    show ?thesis
    proof (cases y)
      case None
      with Cons split have "xs = map Some pre @ None # rest"
        by simp
      then have "\<exists>rest. xs = map Some pre @ None # rest"
        by (rule exI)
      with lines show ?thesis
        by (intro exI [of _ pre] conjI disjI2 disjI1)
    next
      case (Some answer)
      with \<open>\<not> other y\<close> have "answer \<in> required_responses"
        by (simp add: other_def)
      moreover from Some Cons split have "xs = map Some pre @ Some answer # rest"
        by simp
      ultimately have "\<exists>answer rest. xs = map Some pre @ Some answer # rest \<and>
          answer \<in> required_responses"
        by (intro exI conjI)
      with lines show ?thesis
        by (intro exI [of _ pre] conjI disjI2)
    qed
  qed
qed

lemma continue_prompt_returns:
  assumes "continue_prompt v = (Some (Inr b), v')"
  shows "\<exists>given answer unread.
           stdin v = map Some given @ Some answer # unread
         \<and> (\<forall>l \<in> set given. l \<noteq> ''yes'' \<and> l \<noteq> ''no'')
         \<and> (answer = ''yes'' \<or> answer = ''no'')
         \<and> b = (answer = ''yes'')
         \<and> v' = v\<lparr>stdin := unread, trace := trace v @ replicate (Suc (length given)) Prompt\<rparr>"
proof -
  have empty: "[] \<notin> required_responses"
    by (simp add: required_responses_def)
  obtain pre where pre: "\<forall>l \<in> set pre. l \<notin> required_responses"
    and shape: "stdin v = map Some pre
      \<or> (\<exists>rest. stdin v = map Some pre @ None # rest)
      \<or> (\<exists>answer rest. stdin v = map Some pre @ Some answer # rest \<and>
            answer \<in> required_responses)"
    using stdin_shape [of "stdin v"] by blast
  from shape consider (blocked) "stdin v = map Some pre"
    | (eof) rest where "stdin v = map Some pre @ None # rest"
    | (answered) answer rest where "stdin v = map Some pre @ Some answer # rest"
        "answer \<in> required_responses"
    by blast
  then show ?thesis
  proof cases
    case blocked
    from while_response_blocked [OF pre empty blocked] assms show ?thesis
      by (simp add: continue_prompt_def)
  next
    case eof
    from while_response_eof [OF pre empty eof] assms show ?thesis
      by (simp add: continue_prompt_def)
  next
    case answered
    from while_response_answered [OF pre empty answered(2,1)] assms
    have b: "b = (answer = ''yes'')"
      and v': "v' = v\<lparr>stdin := rest, trace := trace v @ replicate (Suc (length pre)) Prompt\<rparr>"
      by (auto simp: continue_prompt_def split: if_splits)
    have lits: "answer = ''yes'' \<or> answer = ''no''"
      using answered(2) by (simp add: required_responses_def)
    have given: "\<forall>l \<in> set pre. l \<noteq> ''yes'' \<and> l \<noteq> ''no''"
      using pre by (simp add: required_responses_def)
    show ?thesis
    proof (rule exI [of _ pre], rule exI [of _ answer], rule exI [of _ rest], intro conjI)
      show "stdin v = map Some pre @ Some answer # rest"
        by (rule answered(1))
      show "\<forall>l \<in> set pre. l \<noteq> ''yes'' \<and> l \<noteq> ''no''"
        by (rule given)
      show "answer = ''yes'' \<or> answer = ''no''"
        by (rule lits)
      show "b = (answer = ''yes'')"
        by (rule b)
      show "v' = v\<lparr>stdin := rest, trace := trace v @ replicate (Suc (length pre)) Prompt\<rparr>"
        by (rule v')
    qed
  qed
qed

text \<open>
  Claim C6. \<^verbatim>\<open>continue_prompt\<close> does not return while the operator enters anything but the
  exact lines \<^verbatim>\<open>yes\<close> and \<^verbatim>\<open>no\<close>: after any such lines \<open>pre\<close> it has printed the prompt once
  more than it has read lines and is still waiting. When the first line that is one of
  the two literals is \<^verbatim>\<open>yes\<close> it returns true, when it is \<^verbatim>\<open>no\<close> it returns false, and the
  lines after it are left unread. Nothing is a default: the empty line and \<^verbatim>\<open>Yes\<close> are
  lines like any other, and an end of file before an answer raises \<^verbatim>\<open>EOFError\<close> instead of
  returning. Conversely, whenever \<^verbatim>\<open>continue_prompt\<close> returns a value, the operator has
  entered lines other than the two literals followed by one of the literals, and the
  value is true exactly when that literal is \<^verbatim>\<open>yes\<close>.
\<close>

theorem continue_prompt_waits_for_yes_or_no:
  assumes "\<forall>l \<in> set pre. l \<noteq> ''yes'' \<and> l \<noteq> ''no''"
  shows "continue_prompt (w\<lparr>stdin := map Some pre\<rparr>) =
           (None, w\<lparr>stdin := [], trace := trace w @ replicate (Suc (length pre)) Prompt\<rparr>)
       \<and> continue_prompt (w\<lparr>stdin := map Some pre @ Some ''yes'' # rest\<rparr>) =
           (Some (Inr True),
            w\<lparr>stdin := rest, trace := trace w @ replicate (Suc (length pre)) Prompt\<rparr>)
       \<and> continue_prompt (w\<lparr>stdin := map Some pre @ Some ''no'' # rest\<rparr>) =
           (Some (Inr False),
            w\<lparr>stdin := rest, trace := trace w @ replicate (Suc (length pre)) Prompt\<rparr>)
       \<and> continue_prompt (w\<lparr>stdin := map Some pre @ None # rest\<rparr>) =
           (Some (Inl EOFError),
            w\<lparr>stdin := rest, trace := trace w @ replicate (Suc (length pre)) Prompt\<rparr>)
       \<and> (continue_prompt v = (Some (Inr b), v') \<longrightarrow>
            (\<exists>given answer unread.
               stdin v = map Some given @ Some answer # unread
             \<and> (\<forall>l \<in> set given. l \<noteq> ''yes'' \<and> l \<noteq> ''no'')
             \<and> (answer = ''yes'' \<or> answer = ''no'')
             \<and> b = (answer = ''yes'')
             \<and> v' = v\<lparr>stdin := unread,
                      trace := trace v @ replicate (Suc (length given)) Prompt\<rparr>))"
proof (intro conjI)
  show "continue_prompt (w\<lparr>stdin := map Some pre\<rparr>) =
      (None, w\<lparr>stdin := [], trace := trace w @ replicate (Suc (length pre)) Prompt\<rparr>)"
    using continue_prompt_blocked [OF assms, of "w\<lparr>stdin := map Some pre\<rparr>"] by simp
next
  show "continue_prompt (w\<lparr>stdin := map Some pre @ Some ''yes'' # rest\<rparr>) =
      (Some (Inr True), w\<lparr>stdin := rest, trace := trace w @ replicate (Suc (length pre)) Prompt\<rparr>)"
    using continue_prompt_answered [OF assms,
        of "''yes''" "w\<lparr>stdin := map Some pre @ Some ''yes'' # rest\<rparr>" rest]
    by simp
next
  show "continue_prompt (w\<lparr>stdin := map Some pre @ Some ''no'' # rest\<rparr>) =
      (Some (Inr False), w\<lparr>stdin := rest, trace := trace w @ replicate (Suc (length pre)) Prompt\<rparr>)"
    using continue_prompt_answered [OF assms,
        of "''no''" "w\<lparr>stdin := map Some pre @ Some ''no'' # rest\<rparr>" rest]
    by simp
next
  show "continue_prompt (w\<lparr>stdin := map Some pre @ None # rest\<rparr>) =
      (Some (Inl EOFError),
       w\<lparr>stdin := rest, trace := trace w @ replicate (Suc (length pre)) Prompt\<rparr>)"
    using continue_prompt_eof [OF assms, of "w\<lparr>stdin := map Some pre @ None # rest\<rparr>" rest]
    by simp
next
  show "continue_prompt v = (Some (Inr b), v') \<longrightarrow>
      (\<exists>given answer unread.
         stdin v = map Some given @ Some answer # unread
       \<and> (\<forall>l \<in> set given. l \<noteq> ''yes'' \<and> l \<noteq> ''no'')
       \<and> (answer = ''yes'' \<or> answer = ''no'')
       \<and> b = (answer = ''yes'')
       \<and> v' = v\<lparr>stdin := unread, trace := trace v @ replicate (Suc (length given)) Prompt\<rparr>)"
    by (rule impI) (rule continue_prompt_returns)
qed

text \<open>
  Four lines that are not answers, followed by nothing, by \<^verbatim>\<open>yes\<close>, by \<^verbatim>\<open>no\<close> and by an
  end of file; and a call that returned true, which has read \<^verbatim>\<open>maybe\<close> and \<^verbatim>\<open>yes\<close>.
\<close>

theorem continue_prompt_waits_for_yes_or_no_witness:
  "''yes'' \<notin> set ['''', ''Yes'', ''y'', ''NO''] \<and> ''no'' \<notin> set ['''', ''Yes'', ''y'', ''NO'']
   \<and> continue_prompt (world_of variables_json ['''', ''Yes'', ''y'', ''NO'']) =
       (None, \<lparr>CONFIG = variables_json, stdin = [], trace = [Prompt, Prompt, Prompt, Prompt, Prompt]\<rparr>)
   \<and> continue_prompt (world_of variables_json ['''', ''Yes'', ''y'', ''NO'', ''yes'', ''no'']) =
       (Some (Inr True),
        \<lparr>CONFIG = variables_json, stdin = [Some ''no''],
         trace = [Prompt, Prompt, Prompt, Prompt, Prompt]\<rparr>)
   \<and> continue_prompt (world_of variables_json ['''', ''Yes'', ''y'', ''NO'', ''no'', ''yes'']) =
       (Some (Inr False),
        \<lparr>CONFIG = variables_json, stdin = [Some ''yes''],
         trace = [Prompt, Prompt, Prompt, Prompt, Prompt]\<rparr>)
   \<and> continue_prompt
         \<lparr>CONFIG = variables_json,
          stdin = [Some '''', Some ''Yes'', Some ''y'', Some ''NO'', None, Some ''yes''],
          trace = []\<rparr> =
       (Some (Inl EOFError),
        \<lparr>CONFIG = variables_json, stdin = [Some ''yes''],
         trace = [Prompt, Prompt, Prompt, Prompt, Prompt]\<rparr>)
   \<and> continue_prompt
         \<lparr>CONFIG = variables_json, stdin = [Some ''maybe'', Some ''yes''], trace = []\<rparr> =
       (Some (Inr True), \<lparr>CONFIG = variables_json, stdin = [], trace = [Prompt, Prompt]\<rparr>)
   \<and> (\<exists>given answer unread.
         stdin \<lparr>CONFIG = variables_json, stdin = [Some ''maybe'', Some ''yes''], trace = []\<rparr> =
           map Some given @ Some answer # unread
       \<and> (\<forall>l \<in> set given. l \<noteq> ''yes'' \<and> l \<noteq> ''no'')
       \<and> (answer = ''yes'' \<or> answer = ''no'')
       \<and> True = (answer = ''yes'')
       \<and> \<lparr>CONFIG = variables_json, stdin = [], trace = [Prompt, Prompt]\<rparr> =
           \<lparr>CONFIG = variables_json, stdin = [Some ''maybe'', Some ''yes''], trace = []\<rparr>
             \<lparr>stdin := unread,
              trace :=
                trace \<lparr>CONFIG = variables_json, stdin = [Some ''maybe'', Some ''yes''],
                       trace = []\<rparr>
                  @ replicate (Suc (length given)) Prompt\<rparr>)"
proof -
  let ?w = "\<lparr>CONFIG = variables_json, stdin = [], trace = []\<rparr>"
  let ?v = "\<lparr>CONFIG = variables_json, stdin = [Some ''maybe'', Some ''yes''], trace = []\<rparr>"
  let ?v' = "\<lparr>CONFIG = variables_json, stdin = [], trace = [Prompt, Prompt]\<rparr>"
  have h: "\<forall>l \<in> set ['''', ''Yes'', ''y'', ''NO'']. l \<noteq> ''yes'' \<and> l \<noteq> ''no''"
    by simp
  have returned: "continue_prompt ?v = (Some (Inr True), ?v')"
    by code_simp
  note yes_first =
    continue_prompt_waits_for_yes_or_no [OF h, of ?w "[Some ''no'']" ?v True ?v']
  note no_first =
    continue_prompt_waits_for_yes_or_no [OF h, of ?w "[Some ''yes'']" ?v True ?v']
  have lits: "''yes'' \<notin> set ['''', ''Yes'', ''y'', ''NO'']" "''no'' \<notin> set ['''', ''Yes'', ''y'', ''NO'']"
    by simp_all
  have blocked: "continue_prompt (world_of variables_json ['''', ''Yes'', ''y'', ''NO'']) =
       (None, \<lparr>CONFIG = variables_json, stdin = [], trace = [Prompt, Prompt, Prompt, Prompt, Prompt]\<rparr>)"
    using yes_first [THEN conjunct1] by (simp add: world_of_def numeral_eq_Suc)
  have yes: "continue_prompt (world_of variables_json ['''', ''Yes'', ''y'', ''NO'', ''yes'', ''no'']) =
       (Some (Inr True),
        \<lparr>CONFIG = variables_json, stdin = [Some ''no''],
         trace = [Prompt, Prompt, Prompt, Prompt, Prompt]\<rparr>)"
    using yes_first [THEN conjunct2, THEN conjunct1] by (simp add: world_of_def numeral_eq_Suc)
  have no: "continue_prompt (world_of variables_json ['''', ''Yes'', ''y'', ''NO'', ''no'', ''yes'']) =
       (Some (Inr False),
        \<lparr>CONFIG = variables_json, stdin = [Some ''yes''],
         trace = [Prompt, Prompt, Prompt, Prompt, Prompt]\<rparr>)"
    using no_first [THEN conjunct2, THEN conjunct2, THEN conjunct1]
    by (simp add: world_of_def numeral_eq_Suc)
  have eof: "continue_prompt
         \<lparr>CONFIG = variables_json,
          stdin = [Some '''', Some ''Yes'', Some ''y'', Some ''NO'', None, Some ''yes''],
          trace = []\<rparr> =
       (Some (Inl EOFError),
        \<lparr>CONFIG = variables_json, stdin = [Some ''yes''],
         trace = [Prompt, Prompt, Prompt, Prompt, Prompt]\<rparr>)"
    using no_first [THEN conjunct2, THEN conjunct2, THEN conjunct2, THEN conjunct1]
    by (simp add: numeral_eq_Suc)
  note given = yes_first [THEN conjunct2, THEN conjunct2, THEN conjunct2, THEN conjunct2,
      THEN mp, OF returned]
  show ?thesis
    by (intro conjI) (rule lits blocked yes no eof returned given)+
qed

subsection \<open>The plan, the prompt and the change (tf\_runner)\<close>

lemma refresh_tf_state_eq:
  "\<exists>args. refresh_tf_state e w =
     w\<lparr>trace := trace w @ [Command args (exit_ok e (trace w) args)]\<rparr> \<and>
     take 2 args = [''terraform'', ''remote'']"
  unfolding refresh_tf_state_def Let_def run_command_eq snd_conv
  by (rule exI, rule conjI, rule refl) simp

lemma tf_setup_eq:
  "\<exists>pre. tf_setup e refresh_state w =
     w\<lparr>trace := trace w @ pre @
       [Command [''terraform'', ''get''] (exit_ok e (trace w @ pre) [''terraform'', ''get''])]\<rparr> \<and>
     (\<forall>ev \<in> set pre. \<not> mutating ev) \<and> Prompt \<notin> set pre \<and>
     [''terraform'', ''get''] \<notin> set (commands pre)"
proof (cases refresh_state)
  case True
  obtain args where args: "refresh_tf_state e w =
      w\<lparr>trace := trace w @ [Command args (exit_ok e (trace w) args)]\<rparr>"
      "take 2 args = [''terraform'', ''remote'']"
    using refresh_tf_state_eq by blast
  let ?pre = "[Command args (exit_ok e (trace w) args)]"
  have "tf_setup e refresh_state w =
     w\<lparr>trace := trace w @ ?pre @
       [Command [''terraform'', ''get''] (exit_ok e (trace w @ ?pre) [''terraform'', ''get''])]\<rparr>"
    using True args(1) by (simp add: tf_setup_def run_command_eq)
  moreover have "\<forall>ev \<in> set ?pre. \<not> mutating ev" "Prompt \<notin> set ?pre"
    "[''terraform'', ''get''] \<notin> set (commands ?pre)"
    using args(2) by (auto simp: mutating_def)
  ultimately show ?thesis by blast
next
  case False
  have "tf_setup e refresh_state w =
     w\<lparr>trace := trace w @ [] @
       [Command [''terraform'', ''get''] (exit_ok e (trace w @ []) [''terraform'', ''get''])]\<rparr>"
    using False by (simp add: tf_setup_def run_command_eq)
  moreover have "\<forall>ev \<in> set ([]::event list). \<not> mutating ev" "Prompt \<notin> set []"
    "[''terraform'', ''get''] \<notin> set (commands [])"
    by simp_all
  ultimately show ?thesis by blast
qed

lemma tf_action_command_length:
  "3 \<le> length (tf_action_command (tf_plan_command cfg targets action) action)"
proof -
  have len: "length (remove1 x xs) \<ge> length xs - 1" for x :: string and xs
    by (simp add: length_remove1)
  show ?thesis
  proof (cases "action = Some ''destroy''")
    case True
    have "4 \<le> length ((tf_plan_command cfg targets action)[1 := ''destroy''])"
      using True by (simp add: tf_plan_command_def Let_def)
    with len [of "(tf_plan_command cfg targets action)[1 := ''destroy'']" "''-destroy''"]
    show ?thesis using True by (simp add: tf_action_command_def)
  next
    case False
    then show ?thesis
      by (auto simp: tf_action_command_def tf_plan_command_def Let_def split: option.splits)
  qed
qed

lemma tf_runner_setup_world:
  "\<exists>evs. trace (tf_setup e refresh_state w) = trace w @ evs \<and>
     CONFIG (tf_setup e refresh_state w) = CONFIG w \<and>
     stdin (tf_setup e refresh_state w) = stdin w \<and>
     (\<forall>ev \<in> set evs. \<not> mutating ev) \<and> Prompt \<notin> set evs"
proof -
  obtain pre where pre: "tf_setup e refresh_state w =
     w\<lparr>trace := trace w @ pre @
       [Command [''terraform'', ''get''] (exit_ok e (trace w @ pre) [''terraform'', ''get''])]\<rparr>"
     "\<forall>ev \<in> set pre. \<not> mutating ev" "Prompt \<notin> set pre"
    using tf_setup_eq by blast
  let ?evs = "pre @ [Command [''terraform'', ''get''] (exit_ok e (trace w @ pre) [''terraform'', ''get''])]"
  have "trace (tf_setup e refresh_state w) = trace w @ ?evs"
    "CONFIG (tf_setup e refresh_state w) = CONFIG w"
    "stdin (tf_setup e refresh_state w) = stdin w"
    by (simp_all add: pre(1))
  moreover have "\<forall>ev \<in> set ?evs. \<not> mutating ev" "Prompt \<notin> set ?evs"
    using pre(2,3) by (auto simp: mutating_def)
  ultimately show ?thesis by blast
qed

lemma plan_not_mutating:
  "\<not> mutating (Command (tf_plan_command cfg targets action) ok)"
  by (simp add: mutating_def tf_plan_command_def Let_def)

lemma tf_runner_unfold:
  assumes "run_command e (tf_plan_command (CONFIG w) targets action)
             (tf_setup e refresh_state w) = (plan_ok, w2)"
    and "continue_prompt w2 = (r, w3)"
  shows "tf_runner e targets action refresh_state w =
     (if \<not> plan_ok then (Some (Inr False), w2)
      else if r = Some (Inr True)
        then (Some (Inr True),
              w3\<lparr>trace := trace w3 @
                [Command (tf_action_command (tf_plan_command (CONFIG w) targets action) action)
                  (exit_ok e (trace w3)
                    (tf_action_command (tf_plan_command (CONFIG w) targets action) action))]\<rparr>)
        else (r, w3))"
  using assms
  by (cases plan_ok)
    (auto simp: tf_runner_def Let_def run_command_eq [of _ _ w3]
      split: option.splits sum.splits bool.splits)

text \<open>
  Claim C1. In a run of \<^verbatim>\<open>tf_runner\<close> whose plan succeeded, so that the prompt is shown
  (in the world \<open>w2\<close>), if \<^verbatim>\<open>continue_prompt\<close> returns false then \<^verbatim>\<open>tf_runner\<close> returns
  false, the configuration is the one the run started with, and none of the commands
  the run has issued is \<^verbatim>\<open>terraform apply\<close> or \<^verbatim>\<open>terraform destroy\<close>.
\<close>

theorem tf_runner_rejected:
  assumes plan: "run_command e (tf_plan_command (CONFIG w) targets action)
                   (tf_setup e refresh_state w) = (True, w2)"
    and no: "continue_prompt w2 = (Some (Inr False), w3)"
  shows "tf_runner e targets action refresh_state w = (Some (Inr False), w3)
       \<and> CONFIG w3 = CONFIG w
       \<and> (\<exists>evs. trace w3 = trace w @ evs \<and> (\<forall>ev \<in> set evs. \<not> mutating ev))"
proof -
  let ?plan = "tf_plan_command (CONFIG w) targets action"
  have result: "tf_runner e targets action refresh_state w = (Some (Inr False), w3)"
    by (simp add: tf_runner_def Let_def plan no)
  obtain evs1 where su: "trace (tf_setup e refresh_state w) = trace w @ evs1"
      "CONFIG (tf_setup e refresh_state w) = CONFIG w" "\<forall>ev \<in> set evs1. \<not> mutating ev"
    using tf_runner_setup_world by blast
  from plan have w2: "CONFIG w2 = CONFIG w" "trace w2 = trace w @ evs1 @ [Command ?plan True]"
    using su(1,2) by (auto simp: run_command_eq)
  from continue_prompt_world [OF no] obtain k
    where w3: "CONFIG w3 = CONFIG w2" "trace w3 = trace w2 @ Prompt # replicate k Prompt"
    by blast
  let ?evs = "evs1 @ [Command ?plan True] @ Prompt # replicate k Prompt"
  have "trace w3 = trace w @ ?evs"
    using w2(2) w3(2) by simp
  moreover have "\<forall>ev \<in> set ?evs. \<not> mutating ev"
    using su(3) plan_not_mutating by (auto simp: mutating_def)
  ultimately show ?thesis
    using result w2(1) w3(1) by auto
qed

text \<open>
  Claim C2. Let the plan command of a run of \<^verbatim>\<open>tf_runner\<close> report \<open>plan_ok\<close> and leave
  the world \<open>w2\<close>. If the plan failed, the run ends there with the result false and no
  prompt has been printed since it started. If the plan succeeded, the next effect of
  the run is the prompt, whether or not the operator ever answers it.
\<close>

theorem tf_runner_plan_gates_prompt:
  assumes plan: "run_command e (tf_plan_command (CONFIG w) targets action)
                   (tf_setup e refresh_state w) = (plan_ok, w2)"
  shows "(\<not> plan_ok \<longrightarrow>
            tf_runner e targets action refresh_state w = (Some (Inr False), w2)
          \<and> (\<exists>evs. trace w2 = trace w @ evs \<and> Prompt \<notin> set evs))
       \<and> (plan_ok \<longrightarrow>
            (\<exists>evs. trace (snd (tf_runner e targets action refresh_state w)) =
                     trace w2 @ Prompt # evs))"
proof (rule conjI; rule impI)
  assume failed: "\<not> plan_ok"
  let ?plan = "tf_plan_command (CONFIG w) targets action"
  obtain evs1 where su: "trace (tf_setup e refresh_state w) = trace w @ evs1"
      "Prompt \<notin> set evs1"
    using tf_runner_setup_world by blast
  from plan have "trace w2 = trace w @ evs1 @ [Command ?plan plan_ok]"
    using su(1) by (auto simp: run_command_eq)
  moreover have "Prompt \<notin> set (evs1 @ [Command ?plan plan_ok])"
    using su(2) by simp
  ultimately have "\<exists>evs. trace w2 = trace w @ evs \<and> Prompt \<notin> set evs"
    by blast
  moreover have "tf_runner e targets action refresh_state w = (Some (Inr False), w2)"
    using plan failed by (simp add: tf_runner_def Let_def)
  ultimately show "tf_runner e targets action refresh_state w = (Some (Inr False), w2)
      \<and> (\<exists>evs. trace w2 = trace w @ evs \<and> Prompt \<notin> set evs)"
    by simp
next
  assume ok: plan_ok
  obtain r w3 where prompt: "continue_prompt w2 = (r, w3)"
    by (cases "continue_prompt w2")
  from continue_prompt_world [OF prompt] obtain k
    where w3: "trace w3 = trace w2 @ Prompt # replicate k Prompt"
    by blast
  show "\<exists>evs. trace (snd (tf_runner e targets action refresh_state w)) = trace w2 @ Prompt # evs"
  proof (cases "r = Some (Inr True)")
    case True
    then have "trace (snd (tf_runner e targets action refresh_state w)) =
        trace w2 @ Prompt # (replicate k Prompt @
          [Command (tf_action_command (tf_plan_command (CONFIG w) targets action) action)
            (exit_ok e (trace w3)
              (tf_action_command (tf_plan_command (CONFIG w) targets action) action))])"
      using ok w3 by (simp add: tf_runner_unfold [OF plan prompt])
    then show ?thesis by blast
  next
    case False
    then have "snd (tf_runner e targets action refresh_state w) = w3"
      using ok by (simp add: tf_runner_unfold [OF plan prompt])
    with w3 show ?thesis by simp
  qed
qed

text \<open>
  Claim C8, as amended. \<^verbatim>\<open>terraform get\<close> is run once in every run of \<^verbatim>\<open>tf_runner\<close> and is
  not retried, but its failure is not fatal: its exit status is not read, and whatever
  it is the plan command is the next command of the run.
\<close>

theorem tf_runner_get_not_fatal:
  "\<exists>pre ok rest.
     trace (snd (tf_runner e targets action refresh_state w)) =
       trace w @ pre @
       [Command [''terraform'', ''get''] (exit_ok e (trace w @ pre) [''terraform'', ''get'']),
        Command (tf_plan_command (CONFIG w) targets action) ok] @ rest
   \<and> [''terraform'', ''get''] \<notin> set (commands pre)
   \<and> [''terraform'', ''get''] \<notin> set (commands rest)"
proof -
  let ?get = "[''terraform'', ''get'']"
  let ?plan = "tf_plan_command (CONFIG w) targets action"
  let ?final = "tf_action_command ?plan action"
  obtain pre where pre: "tf_setup e refresh_state w =
       w\<lparr>trace := trace w @ pre @ [Command ?get (exit_ok e (trace w @ pre) ?get)]\<rparr>"
     "?get \<notin> set (commands pre)"
    using tf_setup_eq by blast
  let ?w1 = "tf_setup e refresh_state w"
  let ?b = "exit_ok e (trace w @ pre) ?get"
  obtain ok w2 where plan: "run_command e ?plan ?w1 = (ok, w2)"
    by (cases "run_command e ?plan ?w1")
  then have w2: "trace w2 = trace w @ pre @ [Command ?get ?b, Command ?plan ok]"
    by (auto simp: run_command_eq pre(1))
  have final: "?get \<noteq> ?final"
  proof
    assume "?get = ?final"
    then have "length ?get = length ?final"
      by simp
    then show False
      using tf_action_command_length [of "CONFIG w" targets action] by simp
  qed
  have prompts: "?get \<notin> set (commands (replicate k Prompt))" for k
    by (induction k) simp_all
  have app: "commands (xs @ ys) = commands xs @ commands ys" for xs ys
    by (induction xs rule: commands.induct) simp_all
  show ?thesis
  proof (cases ok)
    case False
    then have "trace (snd (tf_runner e targets action refresh_state w)) =
        trace w @ pre @ [Command ?get ?b, Command ?plan ok] @ []"
      using plan w2 by (simp add: tf_runner_def Let_def)
    moreover have "?get \<notin> set (commands [])" by simp
    ultimately show ?thesis using pre(2) by blast
  next
    case True
    obtain r w3 where prompt: "continue_prompt w2 = (r, w3)"
      by (cases "continue_prompt w2")
    from continue_prompt_world [OF prompt] obtain k
      where w3: "trace w3 = trace w2 @ Prompt # replicate k Prompt"
      by blast
    show ?thesis
    proof (cases "r = Some (Inr True)")
      case yes: True
      let ?rest = "Prompt # replicate k Prompt @ [Command ?final (exit_ok e (trace w3) ?final)]"
      have "trace (snd (tf_runner e targets action refresh_state w)) =
          trace w @ pre @ [Command ?get ?b, Command ?plan ok] @ ?rest"
        using True yes w2 w3 by (simp add: tf_runner_unfold [OF plan prompt])
      moreover have "?get \<notin> set (commands ?rest)"
        using final prompts [of k] by (simp add: app)
      ultimately show ?thesis using pre(2) by blast
    next
      case no: False
      let ?rest = "Prompt # replicate k Prompt"
      have "snd (tf_runner e targets action refresh_state w) = w3"
        using True no by (simp add: tf_runner_unfold [OF plan prompt])
      then have "trace (snd (tf_runner e targets action refresh_state w)) =
          trace w @ pre @ [Command ?get ?b, Command ?plan ok] @ ?rest"
        using w2 w3 by simp
      moreover have "?get \<notin> set (commands ?rest)"
        using prompts [of k] by simp
      ultimately show ?thesis using pre(2) by blast
    qed
  qed
qed

text \<open>
  Claim C8 as stated fails: with a \<^verbatim>\<open>terraform get\<close> that exits with a non-zero status
  the run goes on to plan, prompts, applies and returns true; nothing ends the process.
\<close>

theorem tf_runner_get_failure_counterexample:
  "tf_runner (env_failing (\<lambda>args. args = [''terraform'', ''get''])) [] None False
     (world_of variables_json [''yes'']) =
   (Some (Inr True),
    \<lparr>CONFIG = variables_json, stdin = [],
     trace = [Command [''terraform'', ''get''] False,
              Command [''terraform'', ''plan'', ''-var-file=../variables.json''] True,
              Prompt,
              Command [''terraform'', ''apply'', ''-var-file=../variables.json''] True]\<rparr>)"
  by code_simp

text \<open>
  Claim C3. The docstring of \<^verbatim>\<open>tf_runner\<close> promises the "Boolean result of if the
  terraform command was successful or not", and the claim asks for false whenever a
  command fails. The code does not read the result of its last \<^verbatim>\<open>run_command\<close>: in this
  run \<^verbatim>\<open>terraform apply\<close> exits with a non-zero status and \<^verbatim>\<open>tf_runner\<close> returns true.
\<close>

theorem tf_runner_apply_failure_returns_true:
  "tf_runner (env_failing (\<lambda>args. take 2 args = [''terraform'', ''apply''])) [] None False
     (world_of variables_json [''yes'']) =
   (Some (Inr True),
    \<lparr>CONFIG = variables_json, stdin = [],
     trace = [Command [''terraform'', ''get''] True,
              Command [''terraform'', ''plan'', ''-var-file=../variables.json''] True,
              Prompt,
              Command [''terraform'', ''apply'', ''-var-file=../variables.json''] False]\<rparr>)"
  by code_simp

text \<open>
  A run on one target in which every command succeeds and the operator answers
  \<^verbatim>\<open>no\<close>.
\<close>

theorem tf_runner_rejected_witness:
  "run_command (env_failing (\<lambda>args. False))
     (tf_plan_command (CONFIG (world_of variables_json [''no''])) [''module.kinesis_prod''] None)
     (tf_setup (env_failing (\<lambda>args. False)) False (world_of variables_json [''no''])) =
     (True,
      \<lparr>CONFIG = variables_json, stdin = [Some ''no''],
       trace = [Command [''terraform'', ''get''] True,
                Command [''terraform'', ''plan'', ''-var-file=../variables.json'',
                         ''-target=module.kinesis_prod''] True]\<rparr>)
   \<and> continue_prompt
       \<lparr>CONFIG = variables_json, stdin = [Some ''no''],
        trace = [Command [''terraform'', ''get''] True,
                 Command [''terraform'', ''plan'', ''-var-file=../variables.json'',
                          ''-target=module.kinesis_prod''] True]\<rparr> =
     (Some (Inr False),
      \<lparr>CONFIG = variables_json, stdin = [],
       trace = [Command [''terraform'', ''get''] True,
                Command [''terraform'', ''plan'', ''-var-file=../variables.json'',
                         ''-target=module.kinesis_prod''] True,
                Prompt]\<rparr>)
   \<and> tf_runner (env_failing (\<lambda>args. False)) [''module.kinesis_prod''] None False
       (world_of variables_json [''no'']) =
     (Some (Inr False),
      \<lparr>CONFIG = variables_json, stdin = [],
       trace = [Command [''terraform'', ''get''] True,
                Command [''terraform'', ''plan'', ''-var-file=../variables.json'',
                         ''-target=module.kinesis_prod''] True,
                Prompt]\<rparr>)"
proof -
  let ?e = "env_failing (\<lambda>args. False)"
  let ?w = "world_of variables_json [''no'']"
  let ?w2 = "\<lparr>CONFIG = variables_json, stdin = [Some ''no''],
       trace = [Command [''terraform'', ''get''] True,
                Command [''terraform'', ''plan'', ''-var-file=../variables.json'',
                         ''-target=module.kinesis_prod''] True]\<rparr>"
  let ?w3 = "\<lparr>CONFIG = variables_json, stdin = [],
       trace = [Command [''terraform'', ''get''] True,
                Command [''terraform'', ''plan'', ''-var-file=../variables.json'',
                         ''-target=module.kinesis_prod''] True,
                Prompt]\<rparr>"
  have h1: "run_command ?e (tf_plan_command (CONFIG ?w) [''module.kinesis_prod''] None)
      (tf_setup ?e False ?w) = (True, ?w2)"
    by code_simp
  have h2: "continue_prompt ?w2 = (Some (Inr False), ?w3)"
    by code_simp
  show ?thesis
    using h1 h2 tf_runner_rejected [OF h1 h2] by simp
qed

text \<open>
  A run whose plan fails, with an answer waiting that is never read, and a run whose
  plan succeeds with no answer available: the prompt is printed all the same.
\<close>

theorem tf_runner_plan_gates_prompt_witness:
  "run_command (env_failing (\<lambda>args. take 2 args = [''terraform'', ''plan'']))
     (tf_plan_command (CONFIG (world_of variables_json [''yes''])) [] None)
     (tf_setup (env_failing (\<lambda>args. take 2 args = [''terraform'', ''plan'']))
        False (world_of variables_json [''yes''])) =
     (False,
      \<lparr>CONFIG = variables_json, stdin = [Some ''yes''],
       trace = [Command [''terraform'', ''get''] True,
                Command [''terraform'', ''plan'', ''-var-file=../variables.json''] False]\<rparr>)
   \<and> tf_runner (env_failing (\<lambda>args. take 2 args = [''terraform'', ''plan''])) [] None False
       (world_of variables_json [''yes'']) =
     (Some (Inr False),
      \<lparr>CONFIG = variables_json, stdin = [Some ''yes''],
       trace = [Command [''terraform'', ''get''] True,
                Command [''terraform'', ''plan'', ''-var-file=../variables.json''] False]\<rparr>)
   \<and> run_command (env_failing (\<lambda>args. False))
       (tf_plan_command (CONFIG (world_of variables_json [])) [] None)
       (tf_setup (env_failing (\<lambda>args. False)) False (world_of variables_json [])) =
     (True,
      \<lparr>CONFIG = variables_json, stdin = [],
       trace = [Command [''terraform'', ''get''] True,
                Command [''terraform'', ''plan'', ''-var-file=../variables.json''] True]\<rparr>)
   \<and> (\<exists>evs. trace (snd (tf_runner (env_failing (\<lambda>args. False)) [] None False
                           (world_of variables_json []))) =
         [Command [''terraform'', ''get''] True,
          Command [''terraform'', ''plan'', ''-var-file=../variables.json''] True] @ Prompt # evs)"
proof -
  let ?f = "env_failing (\<lambda>args. take 2 args = [''terraform'', ''plan''])"
  let ?e = "env_failing (\<lambda>args. False)"
  let ?wf = "\<lparr>CONFIG = variables_json, stdin = [Some ''yes''],
       trace = [Command [''terraform'', ''get''] True,
                Command [''terraform'', ''plan'', ''-var-file=../variables.json''] False]\<rparr>"
  let ?we = "\<lparr>CONFIG = variables_json, stdin = [],
       trace = [Command [''terraform'', ''get''] True,
                Command [''terraform'', ''plan'', ''-var-file=../variables.json''] True]\<rparr>"
  have h1: "run_command ?f (tf_plan_command (CONFIG (world_of variables_json [''yes''])) [] None)
      (tf_setup ?f False (world_of variables_json [''yes''])) = (False, ?wf)"
    by code_simp
  have h2: "run_command ?e (tf_plan_command (CONFIG (world_of variables_json [])) [] None)
      (tf_setup ?e False (world_of variables_json [])) = (True, ?we)"
    by code_simp
  show ?thesis
    using h1 h2 tf_runner_plan_gates_prompt [OF h1] tf_runner_plan_gates_prompt [OF h2]
    by simp
qed

subsection \<open>rollback\<close>

lemma list_all_update:
  "list_all P al \<Longrightarrow> P (k, v) \<Longrightarrow> list_all P (AList.update k v al)"
  by (induction al) auto

lemma valid_pointer_PInt: "valid_pointer (PInt n) = (1 \<le> n)"
  by (simp add: valid_pointer_def py_int_def)

lemma rollback_version_valid:
  assumes "pointers_valid cfg" and "rollback_version cluster lambda_function cfg = (r, cfg')"
  shows "pointers_valid cfg'"
proof (cases "cfg' = cfg")
  case True
  with assms(1) show ?thesis by simp
next
  case False
  with assms(2) obtain versions current_vers n where
    tbl: "map_of (tables cfg) ''{}_versions'' = Some versions"
    and cur: "map_of versions cluster = Some current_vers"
    and n: "py_int current_vers = Inr n" "1 < n"
    and cfg': "cfg' = cfg\<lparr>tables := AList.update ''{}_versions''
        (AList.update cluster (PInt (n - 1)) versions) (tables cfg)\<rparr>"
    by (auto simp: rollback_version_def split: option.splits sum.splits if_splits)
  from tbl have "(''{}_versions'', versions) \<in> set (tables cfg)"
    by (rule map_of_SomeD)
  with assms(1) have "list_all (\<lambda>(cluster, v). valid_pointer v) versions"
    by (auto simp: pointers_valid_def list_all_iff)
  moreover have "valid_pointer (PInt (n - 1))"
    using n(2) by (simp add: valid_pointer_PInt)
  ultimately have "list_all (\<lambda>(cluster, v). valid_pointer v)
      (AList.update cluster (PInt (n - 1)) versions)"
    by (simp add: list_all_update)
  with assms(1) show ?thesis
    by (simp add: cfg' pointers_valid_def list_all_update)
qed

lemma rollback_version_sentinel:
  assumes "rollback_version cluster lambda_function cfg = (r, cfg')"
    and "pointer cfg key c = Some (PStr ''$LATEST'')"
  shows "pointer cfg' key c = Some (PStr ''$LATEST'')"
proof (cases "cfg' = cfg")
  case True
  with assms(2) show ?thesis by simp
next
  case False
  with assms(1) obtain versions current_vers n where
    tbl: "map_of (tables cfg) ''{}_versions'' = Some versions"
    and cur: "map_of versions cluster = Some current_vers"
    and latest: "current_vers \<noteq> PStr ''$LATEST''"
    and cfg': "cfg' = cfg\<lparr>tables := AList.update ''{}_versions''
        (AList.update cluster (PInt (n - 1)) versions) (tables cfg)\<rparr>"
    by (auto simp: rollback_version_def split: option.splits sum.splits if_splits)
  show ?thesis
    using assms(2) tbl cur latest
    by (auto simp: cfg' pointer_def update_conv' split: option.splits if_splits)
qed

lemma rollback_functions_valid:
  "pointers_valid cfg \<Longrightarrow> rollback_functions cluster fs cfg = (r, cfg') \<Longrightarrow> pointers_valid cfg'"
proof (induction fs arbitrary: cfg)
  case Nil
  then show ?case by simp
next
  case (Cons f fs)
  obtain r1 cfg1 where step: "rollback_version cluster f cfg = (r1, cfg1)"
    by (cases "rollback_version cluster f cfg")
  from rollback_version_valid [OF Cons.prems(1) step] have valid1: "pointers_valid cfg1" .
  show ?case
  proof (cases r1)
    case (Inl err)
    with Cons.prems(2) step have "cfg' = cfg1" by simp
    with valid1 show ?thesis by simp
  next
    case (Inr u)
    with Cons.prems(2) step have "rollback_functions cluster fs cfg1 = (r, cfg')" by simp
    with valid1 show ?thesis by (rule Cons.IH)
  qed
qed

lemma rollback_functions_sentinel:
  "rollback_functions cluster fs cfg = (r, cfg') \<Longrightarrow>
   pointer cfg key c = Some (PStr ''$LATEST'') \<Longrightarrow> pointer cfg' key c = Some (PStr ''$LATEST'')"
proof (induction fs arbitrary: cfg)
  case Nil
  then show ?case by simp
next
  case (Cons f fs)
  obtain r1 cfg1 where step: "rollback_version cluster f cfg = (r1, cfg1)"
    by (cases "rollback_version cluster f cfg")
  from rollback_version_sentinel [OF step Cons.prems(2)]
  have s1: "pointer cfg1 key c = Some (PStr ''$LATEST'')" .
  show ?case
  proof (cases r1)
    case (Inl err)
    with Cons.prems(1) step have "cfg' = cfg1" by simp
    with s1 show ?thesis by simp
  next
    case (Inr u)
    with Cons.prems(1) step have "rollback_functions cluster fs cfg1 = (r, cfg')" by simp
    then show ?thesis using s1 by (rule Cons.IH)
  qed
qed

lemma rollback_clusters_valid:
  "pointers_valid cfg \<Longrightarrow> rollback_clusters cs cfg = (r, cfg') \<Longrightarrow> pointers_valid cfg'"
proof (induction cs arbitrary: cfg)
  case Nil
  then show ?case by simp
next
  case (Cons cluster cs)
  obtain r1 cfg1 where step:
    "rollback_functions cluster [''rule_processor'', ''alert_processor''] cfg = (r1, cfg1)"
    by (cases "rollback_functions cluster [''rule_processor'', ''alert_processor''] cfg")
  from rollback_functions_valid [OF Cons.prems(1) step] have valid1: "pointers_valid cfg1" .
  show ?case
  proof (cases r1)
    case (Inl err)
    with Cons.prems(2) step have "cfg' = cfg1" by simp
    with valid1 show ?thesis by simp
  next
    case (Inr u)
    with Cons.prems(2) step have "rollback_clusters cs cfg1 = (r, cfg')" by simp
    with valid1 show ?thesis by (rule Cons.IH)
  qed
qed

lemma rollback_clusters_sentinel:
  "rollback_clusters cs cfg = (r, cfg') \<Longrightarrow>
   pointer cfg key c = Some (PStr ''$LATEST'') \<Longrightarrow> pointer cfg' key c = Some (PStr ''$LATEST'')"
proof (induction cs arbitrary: cfg)
  case Nil
  then show ?case by simp
next
  case (Cons cluster cs)
  obtain r1 cfg1 where step:
    "rollback_functions cluster [''rule_processor'', ''alert_processor''] cfg = (r1, cfg1)"
    by (cases "rollback_functions cluster [''rule_processor'', ''alert_processor''] cfg")
  from rollback_functions_sentinel [OF step Cons.prems(2)]
  have s1: "pointer cfg1 key c = Some (PStr ''$LATEST'')" .
  show ?case
  proof (cases r1)
    case (Inl err)
    with Cons.prems(1) step have "cfg' = cfg1" by simp
    with s1 show ?thesis by simp
  next
    case (Inr u)
    with Cons.prems(1) step have "rollback_clusters cs cfg1 = (r, cfg')" by simp
    then show ?thesis using s1 by (rule Cons.IH)
  qed
qed

text \<open>
  Claim C5. If every version pointer of the configuration is the sentinel or a number
  that is at least 1, then after \<^verbatim>\<open>rollback\<close>, whether it returned or raised, every
  version pointer still is: no decrement has produced a value below 1. A pointer that
  was the sentinel still is the sentinel.
\<close>

theorem rollback_keeps_pointers_valid:
  assumes "pointers_valid (CONFIG w)" and "rollback w = (r, w')"
  shows "pointers_valid (CONFIG w')
       \<and> (\<forall>key cluster. pointer (CONFIG w) key cluster = Some (PStr ''$LATEST'') \<longrightarrow>
            pointer (CONFIG w') key cluster = Some (PStr ''$LATEST''))"
proof -
  obtain cfg' where run: "rollback_clusters (map fst (clusters (CONFIG w))) (CONFIG w) = (r, cfg')"
    and w': "CONFIG w' = cfg'"
    using assms(2) by (auto simp: rollback_def split: prod.splits)
  from rollback_clusters_valid [OF assms(1) run] rollback_clusters_sentinel [OF run] w'
  show ?thesis by simp
qed

text \<open>
  A configuration with a table under the key that \<^verbatim>\<open>rollback\<close> reads, so that the
  call returns.
\<close>

theorem rollback_keeps_pointers_valid_witness:
  "pointers_valid (CONFIG (world_of variables_json_braces []))
   \<and> rollback (world_of variables_json_braces []) =
       (Inr (), world_of (variables_json\<lparr>tables :=
          (''{}_versions'', [(''prod'', PInt 3), (''staging'', PStr ''$LATEST'')])
            # tables variables_json\<rparr>) [])
   \<and> pointers_valid (variables_json\<lparr>tables :=
          (''{}_versions'', [(''prod'', PInt 3), (''staging'', PStr ''$LATEST'')])
            # tables variables_json\<rparr>)
   \<and> pointer (CONFIG (world_of variables_json_braces [])) ''{}_versions'' ''staging'' =
       Some (PStr ''$LATEST'')
   \<and> pointer (variables_json\<lparr>tables :=
          (''{}_versions'', [(''prod'', PInt 3), (''staging'', PStr ''$LATEST'')])
            # tables variables_json\<rparr>) ''{}_versions'' ''staging'' = Some (PStr ''$LATEST'')"
proof -
  let ?w = "world_of variables_json_braces []"
  let ?cfg' = "variables_json\<lparr>tables :=
          (''{}_versions'', [(''prod'', PInt 3), (''staging'', PStr ''$LATEST'')])
            # tables variables_json\<rparr>"
  have h1: "pointers_valid (CONFIG ?w)"
    by code_simp
  have h2: "rollback ?w = (Inr (), world_of ?cfg' [])"
    by code_simp
  have h3: "pointer (CONFIG ?w) ''{}_versions'' ''staging'' = Some (PStr ''$LATEST'')"
    by code_simp
  have "CONFIG (world_of ?cfg' []) = ?cfg'"
    by (simp add: world_of_def)
  with rollback_keeps_pointers_valid [OF h1 h2] h1 h2 h3 show ?thesis
    by simp
qed

text \<open>
  Claim C4. The docstring of \<^verbatim>\<open>rollback\<close> says "Rollback the current production AWS
  Lambda version by 1", and the loop runs over both function names, but the key it
  reads is the unformatted template \<^verbatim>\<open>'{}_versions'\<close>. With both processors of
  \<^verbatim>\<open>prod\<close> at version 5, \<^verbatim>\<open>rollback\<close> raises \<^verbatim>\<open>KeyError\<close> and the pointers stay at 5. When
  a table with that literal key exists, \<^verbatim>\<open>rollback\<close> returns, the pointers of the two
  processors still stay at 5, and the entry of the literal table goes from 5 to 3: it
  is decremented once for each function name.
\<close>

theorem rollback_reads_literal_key:
  "pointer variables_json ''rule_processor_versions'' ''prod'' = Some (PInt 5)
   \<and> pointer variables_json ''alert_processor_versions'' ''prod'' = Some (PInt 5)
   \<and> rollback (world_of variables_json []) =
       (Inl (KeyError ''{}_versions''), world_of variables_json [])
   \<and> fst (rollback (world_of variables_json_braces [])) = Inr ()
   \<and> pointer (CONFIG (snd (rollback (world_of variables_json_braces []))))
        ''rule_processor_versions'' ''prod'' = Some (PInt 5)
   \<and> pointer (CONFIG (snd (rollback (world_of variables_json_braces []))))
        ''alert_processor_versions'' ''prod'' = Some (PInt 5)
   \<and> pointer variables_json_braces ''{}_versions'' ''prod'' = Some (PInt 5)
   \<and> pointer (CONFIG (snd (rollback (world_of variables_json_braces []))))
        ''{}_versions'' ''prod'' = Some (PInt 3)"
  by code_simp

subsection \<open>generate\_tf\_files\<close>

lemma generate_clusters_eq:
  "generate_clusters e all_buckets names w =
     (if ''main'' \<in> set names
      then Inl (InvalidClusterName ''Rename cluster main to something else!'') else Inr (),
      w\<lparr>trace := trace w @
        map (\<lambda>cluster. FileWrite (''terraform/'' @ cluster @ ''.tf'')
               (render e cluster
                  (case all_buckets of
                     None \<Rightarrow> None
                   | Some bs \<Rightarrow> if bs \<noteq> [] then map_of bs cluster else None)))
          (takeWhile (\<lambda>cluster. cluster \<noteq> ''main'') names)\<rparr>)"
proof (induction names arbitrary: w)
  case Nil
  have "w\<lparr>trace := trace w @ []\<rparr> = w"
    by (cases w) simp
  then show ?case by simp
next
  case (Cons cluster names)
  show ?case
  proof (cases "cluster = ''main''")
    case True
    have "w\<lparr>trace := trace w @ []\<rparr> = w"
      by (cases w) simp
    with True show ?thesis by simp
  next
    case False
    then show ?thesis
      by (simp add: Cons.IH Let_def)
  qed
qed

lemma files_written_map:
  "files_written (map (\<lambda>c. FileWrite (path c) (contents c)) cs) = map path cs"
  by (induction cs) simp_all

text \<open>
  Claim C10, as amended. With a cluster named \<^verbatim>\<open>main\<close> in the configuration,
  \<^verbatim>\<open>generate_tf_files\<close> raises \<^verbatim>\<open>InvalidClusterName\<close>. The files it has written by then
  are exactly those of the clusters that come before \<^verbatim>\<open>main\<close> in iteration order: none
  for \<^verbatim>\<open>main\<close>, none for a cluster after it, and none at all when \<^verbatim>\<open>main\<close> comes first.
\<close>

theorem generate_tf_files_reserved_name:
  assumes "''main'' \<in> set (map fst (clusters (CONFIG w)))"
  shows "fst (generate_tf_files e w) =
           Inl (InvalidClusterName ''Rename cluster main to something else!'')
       \<and> (\<exists>evs. trace (snd (generate_tf_files e w)) = trace w @ evs
            \<and> files_written evs =
                map (\<lambda>cluster. ''terraform/'' @ cluster @ ''.tf'')
                  (takeWhile (\<lambda>cluster. cluster \<noteq> ''main'') (map fst (clusters (CONFIG w))))
            \<and> ''terraform/main.tf'' \<notin> set (files_written evs))"
proof -
  let ?names = "map fst (clusters (CONFIG w))"
  let ?before = "takeWhile (\<lambda>cluster. cluster \<noteq> ''main'') ?names"
  let ?evs = "map (\<lambda>cluster. FileWrite (''terraform/'' @ cluster @ ''.tf'')
               (render e cluster
                  (case s3_event_buckets (CONFIG w) of
                     None \<Rightarrow> None
                   | Some bs \<Rightarrow> if bs \<noteq> [] then map_of bs cluster else None))) ?before"
  have run: "generate_tf_files e w =
      (Inl (InvalidClusterName ''Rename cluster main to something else!''),
       w\<lparr>trace := trace w @ ?evs\<rparr>)"
    using assms unfolding generate_tf_files_def generate_clusters_eq by simp
  have files: "files_written ?evs = map (\<lambda>cluster. ''terraform/'' @ cluster @ ''.tf'') ?before"
    by (rule files_written_map)
  have "''main'' \<notin> set ?before"
    by (auto dest: set_takeWhileD)
  then have "''terraform/main.tf'' \<notin> set (files_written ?evs)"
    unfolding files by auto
  with run files show ?thesis
    by (intro conjI exI [of _ ?evs]) simp_all
qed

text \<open>
  The clusters \<^verbatim>\<open>prod\<close> and \<^verbatim>\<open>main\<close>, in this order.
\<close>

theorem generate_tf_files_reserved_name_witness:
  "''main'' \<in> set (map fst (clusters (CONFIG (world_of variables_json_main []))))
   \<and> fst (generate_tf_files (env_failing (\<lambda>args. False)) (world_of variables_json_main [])) =
       Inl (InvalidClusterName ''Rename cluster main to something else!'')
   \<and> (\<exists>evs. trace (snd (generate_tf_files (env_failing (\<lambda>args. False))
                          (world_of variables_json_main []))) = [] @ evs
         \<and> files_written evs = [''terraform/prod.tf''])"
proof -
  have h: "''main'' \<in> set (map fst (clusters (CONFIG (world_of variables_json_main []))))"
    by code_simp
  have names: "map fst (clusters (CONFIG (world_of variables_json_main []))) = [''prod'', ''main'']"
    by code_simp
  have start: "trace (world_of variables_json_main []) = []"
    by code_simp
  show ?thesis
    using h generate_tf_files_reserved_name [OF h, of "env_failing (\<lambda>args. False)"]
    unfolding names start by simp
qed

text \<open>
  Claim C10 as stated fails: the name is checked inside the loop that writes, so with
  \<^verbatim>\<open>prod\<close> before \<^verbatim>\<open>main\<close> the file \<^verbatim>\<open>terraform/prod.tf\<close> is written before the exception.
\<close>

theorem generate_tf_files_writes_before_failing:
  "generate_tf_files (env_failing (\<lambda>args. False)) (world_of variables_json_main []) =
     (Inl (InvalidClusterName ''Rename cluster main to something else!''),
      \<lparr>CONFIG = variables_json_main, stdin = [],
       trace = [FileWrite ''terraform/prod.tf'' ''prod'']\<rparr>)"
  by code_simp

subsection \<open>deploy and the build subcommand\<close>

lemma commands_append: "commands (xs @ ys) = commands xs @ commands ys"
  by (induction xs rule: commands.induct) simp_all

lemma packages_built_append: "packages_built (xs @ ys) = packages_built xs @ packages_built ys"
  by (induction xs rule: packages_built.induct) simp_all

lemma plan_commands_append: "plan_commands (xs @ ys) = plan_commands xs @ plan_commands ys"
  by (simp add: plan_commands_def commands_append)

lemma prompts_quiet:
  "plan_commands (replicate k Prompt) = [] \<and> packages_built (replicate k Prompt) = []"
  by (induction k) (simp_all add: plan_commands_def)

lemma tf_setup_events:
  "\<exists>evs. tf_setup e refresh_state w = w\<lparr>trace := trace w @ evs\<rparr>
     \<and> plan_commands evs = [] \<and> packages_built evs = []"
proof -
  obtain pre where pre: "tf_setup e refresh_state w =
       w\<lparr>trace := trace w @ pre @
         [Command [''terraform'', ''get''] (exit_ok e (trace w @ pre) [''terraform'', ''get''])]\<rparr>"
    and shape: "pre = [] \<or> (\<exists>args b. pre = [Command args b] \<and> take 2 args = [''terraform'', ''remote''])"
  proof (cases refresh_state)
    case True
    obtain args where "refresh_tf_state e w =
        w\<lparr>trace := trace w @ [Command args (exit_ok e (trace w) args)]\<rparr>"
      "take 2 args = [''terraform'', ''remote'']"
      using refresh_tf_state_eq by blast
    with True that [of "[Command args (exit_ok e (trace w) args)]"] show ?thesis
      by (simp add: tf_setup_def run_command_eq)
  next
    case False
    with that [of "[]"] show ?thesis
      by (simp add: tf_setup_def run_command_eq)
  qed
  let ?evs = "pre @
     [Command [''terraform'', ''get''] (exit_ok e (trace w @ pre) [''terraform'', ''get''])]"
  have "plan_commands ?evs = []" "packages_built ?evs = []"
    using shape by (auto simp: plan_commands_def)
  with pre show ?thesis by blast
qed

lemma tf_runner_events:
  "\<exists>evs. trace (snd (tf_runner e targets None refresh_state w)) = trace w @ evs
     \<and> plan_commands evs = [tf_plan_command (CONFIG w) targets None]
     \<and> packages_built evs = []"
proof -
  let ?plan = "tf_plan_command (CONFIG w) targets None"
  let ?final = "tf_action_command ?plan None"
  obtain evs1 where su: "tf_setup e refresh_state w = w\<lparr>trace := trace w @ evs1\<rparr>"
      "plan_commands evs1 = []" "packages_built evs1 = []"
    using tf_setup_events by blast
  obtain ok w2 where plan: "run_command e ?plan (tf_setup e refresh_state w) = (ok, w2)"
    by (cases "run_command e ?plan (tf_setup e refresh_state w)")
  define evs2 where "evs2 = evs1 @ [Command ?plan ok]"
  define evs3 where "evs3 k = Prompt # replicate k Prompt" for k
  from plan have w2: "trace w2 = trace w @ evs2"
    by (auto simp: run_command_eq su(1) evs2_def)
  obtain r w3 where prompt: "continue_prompt w2 = (r, w3)"
    by (cases "continue_prompt w2")
  from continue_prompt_world [OF prompt] obtain k
    where w3: "trace w3 = trace w2 @ evs3 k"
    unfolding evs3_def by blast
  have is_plan: "take 2 ?plan = [''terraform'', ''plan'']"
    by (simp add: tf_plan_command_def)
  have not_plan: "take 2 ?final \<noteq> [''terraform'', ''plan'']"
    by (simp add: tf_action_command_def tf_plan_command_def)
  have final_quiet: "plan_commands [Command ?final b] = []" "packages_built [Command ?final b] = []"
    for b
    using not_plan by (simp_all add: plan_commands_def)
  have prompts: "plan_commands (evs3 k) = []" "packages_built (evs3 k) = []"
    using prompts_quiet [of "Suc k"] by (simp_all add: evs3_def)
  have upto_plan: "plan_commands evs2 = [?plan]" "packages_built evs2 = []"
    using su(2,3) is_plan
    by (simp_all add: evs2_def plan_commands_append packages_built_append)
      (simp add: plan_commands_def)
  consider (failed) "\<not> ok" | (yes) "ok" "r = Some (Inr True)" | (other) "ok" "r \<noteq> Some (Inr True)"
    by blast
  then show ?thesis
  proof cases
    case failed
    then have "trace (snd (tf_runner e targets None refresh_state w)) = trace w @ evs2"
      using w2 by (simp add: tf_runner_unfold [OF plan prompt])
    with upto_plan show ?thesis by blast
  next
    case yes
    let ?evs = "evs2 @ evs3 k @ [Command ?final (exit_ok e (trace w3) ?final)]"
    have "trace (snd (tf_runner e targets None refresh_state w)) = trace w @ ?evs"
      using yes w2 w3 by (simp add: tf_runner_unfold [OF plan prompt])
    moreover have "plan_commands ?evs = [?plan]" "packages_built ?evs = []"
      by (simp_all add: plan_commands_append packages_built_append upto_plan prompts final_quiet)
    ultimately show ?thesis by blast
  next
    case other
    let ?evs = "evs2 @ evs3 k"
    have "trace (snd (tf_runner e targets None refresh_state w)) = trace w @ ?evs"
      using other w2 w3 by (simp add: tf_runner_unfold [OF plan prompt])
    moreover have "plan_commands ?evs = [?plan]" "packages_built ?evs = []"
      by (simp_all add: plan_commands_append packages_built_append upto_plan prompts)
    ultimately show ?thesis by blast
  qed
qed

lemma snd_discard: "snd (discard x) = snd x"
  by (auto simp: discard_def split: prod.splits option.splits sum.splits)









lemma terraform_check_eq:
  "terraform_check e w =
     w\<lparr>trace := trace w @
       [Command [''terraform'', ''version''] (exit_ok e (trace w) [''terraform'', ''version''])]\<rparr>"
  by (simp add: terraform_check_def run_command_eq)

lemma terraform_build_events:
  assumes "terraform_build e tgt (terraform_check e w) =
             discard (tf_runner e targets None True (terraform_check e w))"
  shows "\<exists>evs. trace (snd (terraform_runner e \<lparr>subcommand = Build, target = tgt\<rparr> w)) =
                  trace w @ evs
           \<and> plan_commands evs = [tf_plan_command (CONFIG w) targets None]"
proof -
  let ?w0 = "terraform_check e w"
  let ?version = "Command [''terraform'', ''version'']
      (exit_ok e (trace w) [''terraform'', ''version''])"
  have w0: "trace ?w0 = trace w @ [?version]" "CONFIG ?w0 = CONFIG w"
    by (simp_all add: terraform_check_eq)
  obtain evs where evs: "trace (snd (tf_runner e targets None True ?w0)) = trace ?w0 @ evs"
      "plan_commands evs = [tf_plan_command (CONFIG ?w0) targets None]"
    using tf_runner_events [of e targets True ?w0] by blast
  have "trace (snd (terraform_runner e \<lparr>subcommand = Build, target = tgt\<rparr> w)) =
      trace w @ ([?version] @ evs)"
    using evs(1) w0(1) by (simp add: terraform_runner_def assms snd_discard)
  moreover have "plan_commands ([?version] @ evs) = [tf_plan_command (CONFIG w) targets None]"
    unfolding plan_commands_append evs(2) w0(2) by (simp add: plan_commands_def)
  ultimately show ?thesis by blast
qed

text \<open>
  Claim C7, as amended. \<^verbatim>\<open>terraform build\<close> without a target runs one plan command, with
  no \<^verbatim>\<open>-target\<close> flag. With the target \<open>m\<close> it runs one plan command with exactly one
  \<^verbatim>\<open>-target\<close> flag for each cluster of the configuration, in iteration order, and the
  target of the cluster \<open>c\<close> is \<^verbatim>\<open>module.\<close>\<open>m\<close>\<^verbatim>\<open>_\<close>\<open>c\<close>.
\<close>

theorem terraform_build_targets:
  "(\<exists>evs. trace (snd (terraform_runner e \<lparr>subcommand = Build, target = None\<rparr> w)) =
             trace w @ evs
      \<and> plan_commands evs = [[''terraform'', ''plan'', ''-var-file=../'' @ filename (CONFIG w)]])
   \<and> (m \<noteq> [] \<longrightarrow>
        (\<exists>evs. trace (snd (terraform_runner e \<lparr>subcommand = Build, target = Some m\<rparr> w)) =
                 trace w @ evs
          \<and> plan_commands evs =
              [[''terraform'', ''plan'', ''-var-file=../'' @ filename (CONFIG w)] @
               map (\<lambda>cluster. ''-target=module.'' @ m @ ''_'' @ cluster)
                 (map fst (clusters (CONFIG w)))]))"
proof (rule conjI)
  have "terraform_build e None (terraform_check e w) =
      discard (tf_runner e [] None True (terraform_check e w))"
    by (simp add: terraform_build_def)
  from terraform_build_events [OF this]
  show "\<exists>evs. trace (snd (terraform_runner e \<lparr>subcommand = Build, target = None\<rparr> w)) =
             trace w @ evs
      \<and> plan_commands evs = [[''terraform'', ''plan'', ''-var-file=../'' @ filename (CONFIG w)]]"
    by (simp add: tf_plan_command_def)
next
  let ?targets = "map (\<lambda>cluster. ''module.'' @ m @ ''_'' @ cluster) (map fst (clusters (CONFIG w)))"
  show "m \<noteq> [] \<longrightarrow>
        (\<exists>evs. trace (snd (terraform_runner e \<lparr>subcommand = Build, target = Some m\<rparr> w)) =
                 trace w @ evs
          \<and> plan_commands evs =
              [[''terraform'', ''plan'', ''-var-file=../'' @ filename (CONFIG w)] @
               map (\<lambda>cluster. ''-target=module.'' @ m @ ''_'' @ cluster)
                 (map fst (clusters (CONFIG w)))])"
  proof
    assume "m \<noteq> []"
    then have "terraform_build e (Some m) (terraform_check e w) =
        discard (tf_runner e ?targets None True (terraform_check e w))"
      by (simp add: terraform_build_def Let_def terraform_check_eq)
    from terraform_build_events [OF this]
    show "\<exists>evs. trace (snd (terraform_runner e \<lparr>subcommand = Build, target = Some m\<rparr> w)) =
                 trace w @ evs
          \<and> plan_commands evs =
              [[''terraform'', ''plan'', ''-var-file=../'' @ filename (CONFIG w)] @
               map (\<lambda>cluster. ''-target=module.'' @ m @ ''_'' @ cluster)
                 (map fst (clusters (CONFIG w)))]"
      by (simp add: tf_plan_command_def comp_def)
  qed
qed

text \<open>
  The target \<^verbatim>\<open>kinesis\<close> on the clusters \<^verbatim>\<open>prod\<close> and \<^verbatim>\<open>staging\<close>.
\<close>

theorem terraform_build_targets_witness:
  "''kinesis'' \<noteq> []
   \<and> (\<exists>evs. trace (snd (terraform_runner (env_failing (\<lambda>args. False))
                          \<lparr>subcommand = Build, target = Some ''kinesis''\<rparr>
                          (world_of variables_json [''yes'']))) = evs
         \<and> plan_commands evs =
             [[''terraform'', ''plan'', ''-var-file=../variables.json'',
               ''-target=module.kinesis_prod'', ''-target=module.kinesis_staging'']])"
proof -
  let ?w = "world_of variables_json [''yes'']"
  have h: "''kinesis'' \<noteq> []"
    by simp
  have start: "trace ?w = []" "filename (CONFIG ?w) = ''variables.json''"
      "map fst (clusters (CONFIG ?w)) = [''prod'', ''staging'']"
    by code_simp+
  show ?thesis
    using h terraform_build_targets [of "env_failing (\<lambda>args. False)" ?w "''kinesis''"]
    unfolding start by simp
qed

text \<open>
  Claim C7 as stated fails on the format: the targets of \<^verbatim>\<open>kinesis\<close> are
  \<^verbatim>\<open>module.kinesis_prod\<close> and \<^verbatim>\<open>module.kinesis_staging\<close>, not \<^verbatim>\<open>kinesis_prod\<close> and
  \<^verbatim>\<open>kinesis_staging\<close>.
\<close>

theorem terraform_build_target_prefix:
  "plan_commands (trace (snd (terraform_runner (env_failing (\<lambda>args. False))
       \<lparr>subcommand = Build, target = Some ''kinesis''\<rparr> (world_of variables_json [''no''])))) =
     [[''terraform'', ''plan'', ''-var-file=../variables.json'',
       ''-target=module.kinesis_prod'', ''-target=module.kinesis_staging'']]
   \<and> plan_commands (trace (snd (terraform_runner (env_failing (\<lambda>args. False))
       \<lparr>subcommand = Build, target = Some ''kinesis''\<rparr> (world_of variables_json [''no''])))) \<noteq>
     [[''terraform'', ''plan'', ''-var-file=../variables.json''] @
      map (\<lambda>cluster. ''-target='' @ ''kinesis'' @ ''_'' @ cluster)
        (map fst (clusters variables_json))]"
  by code_simp

end
